theory Spec2Isabelle
  imports Main
begin

section \<open>Strings and regular expressions of the configuration code\<close>

text \<open>
  The configuration module of the CDK demo (\<^verbatim>\<open>cdk/config/config-manager.ts\<close>) works on
  JavaScript strings. A string is modelled as a \<^typ>\<open>string\<close>, one \<^typ>\<open>char\<close> per code
  unit; every character class of the source's regular expressions is a set of ASCII
  characters.
\<close>

subsection \<open>Array and string built-ins\<close>

text \<open>\<^verbatim>\<open>s.split(c)\<close> for a one-character separator: never empty, \<^verbatim>\<open>"".split(c)\<close> is \<^verbatim>\<open>[""]\<close>.\<close>

fun split :: "string \<Rightarrow> char \<Rightarrow> string list" where
  "split [] c = [[]]"
| "split (x # xs) c =
     (if x = c then [] # split xs c
      else (case split xs c of [] \<Rightarrow> [[x]] | p # ps \<Rightarrow> (x # p) # ps))"

text \<open>\<^verbatim>\<open>parts.join(c)\<close>.\<close>

fun join :: "string list \<Rightarrow> char \<Rightarrow> string" where
  "join [] c = []"
| "join [p] c = p"
| "join (p # q # ps) c = p @ c # join (q # ps) c"

text \<open>\<^verbatim>\<open>xs.slice(0, n)\<close>.\<close>

definition slice0 :: "'a list \<Rightarrow> nat \<Rightarrow> 'a list" where
  "slice0 xs n = take n xs"

text \<open>\<^verbatim>\<open>s.startsWith(p)\<close>.\<close>

fun startsWith :: "string \<Rightarrow> string \<Rightarrow> bool" where
  "startsWith s [] = True"
| "startsWith [] (p # ps) = False"
| "startsWith (c # cs) (p # ps) = (c = p \<and> startsWith cs ps)"

definition isDigit :: "char \<Rightarrow> bool" where
  "isDigit c = (c \<in> set ''0123456789'')"

definition isLower :: "char \<Rightarrow> bool" where
  "isLower c = (c \<in> set ''abcdefghijklmnopqrstuvwxyz'')"

definition digitValue :: "char \<Rightarrow> nat" where
  "digitValue c = of_char c - 48"

text \<open>The value of a string of decimal digits, most significant digit first.\<close>

definition decimal :: "string \<Rightarrow> nat" where
  "decimal ds = foldl (\<lambda>n c. 10 * n + digitValue c) 0 ds"

text \<open>
  \<^verbatim>\<open>parseInt(s, 10)\<close> and \<^verbatim>\<open>Number(s)\<close> return a number or \<^verbatim>\<open>NaN\<close> (here \<open>None\<close>).
  \<^verbatim>\<open>parseInt\<close> reads the longest prefix of digits and is \<^verbatim>\<open>NaN\<close> when there is none
  (also for \<^verbatim>\<open>undefined\<close>); \<^verbatim>\<open>Number\<close> reads the whole string, the empty string being 0.
  Signs, white space, fractions and exponents are left out: the callers below reach both
  only on strings that the regular expression has restricted to digits.
\<close>

definition parseInt10 :: "string option \<Rightarrow> nat option" where
  "parseInt10 s =
     (case s of
        None \<Rightarrow> None
      | Some t \<Rightarrow>
          (let ds = takeWhile isDigit t in if ds = [] then None else Some (decimal ds)))"

definition Number :: "string \<Rightarrow> nat option" where
  "Number s = (if list_all isDigit s then Some (decimal s) else None)"

subsection \<open>Regular expressions\<close>

text \<open>
  The regular expressions of the source use character classes, literals, concatenation,
  bounded and unbounded repetition and an optional group, all between \<^verbatim>\<open>^\<close> and \<^verbatim>\<open>$\<close>
  with no flag, so \<^verbatim>\<open>re.test(s)\<close> holds exactly when the whole of \<open>s\<close> belongs to the
  language of the expression.
\<close>

datatype cclass = Digit | Lower | LowerOrDigit | Lit char

fun inClass :: "cclass \<Rightarrow> char \<Rightarrow> bool" where
  "inClass Digit c = isDigit c"
| "inClass Lower c = isLower c"
| "inClass LowerOrDigit c = (isLower c \<or> isDigit c)"
| "inClass (Lit d) c = (c = d)"

datatype rx = RNone | REps | RChar cclass | RAlt rx rx | RSeq rx rx | RStar rx

text \<open>The expression matches the empty string.\<close>

fun acceptsEmpty :: "rx \<Rightarrow> bool" where
  "acceptsEmpty RNone = False"
| "acceptsEmpty REps = True"
| "acceptsEmpty (RChar k) = False"
| "acceptsEmpty (RAlt r s) = (acceptsEmpty r \<or> acceptsEmpty s)"
| "acceptsEmpty (RSeq r s) = (acceptsEmpty r \<and> acceptsEmpty s)"
| "acceptsEmpty (RStar r) = True"

text \<open>What is left of the expression once the character \<open>c\<close> has been read.\<close>

fun after :: "char \<Rightarrow> rx \<Rightarrow> rx" where
  "after c RNone = RNone"
| "after c REps = RNone"
| "after c (RChar k) = (if inClass k c then REps else RNone)"
| "after c (RAlt r s) = RAlt (after c r) (after c s)"
| "after c (RSeq r s) =
     (if acceptsEmpty r then RAlt (RSeq (after c r) s) (after c s)
      else RSeq (after c r) s)"
| "after c (RStar r) = RSeq (after c r) (RStar r)"

fun test :: "rx \<Rightarrow> string \<Rightarrow> bool" where
  "test r [] = acceptsEmpty r"
| "test r (c # cs) = test (after c r) cs"

text \<open>\<^verbatim>\<open>r+\<close>, \<^verbatim>\<open>r?\<close>, \<^verbatim>\<open>r{2}\<close>, \<^verbatim>\<open>r{3}\<close>, \<^verbatim>\<open>r{1,2}\<close> and \<^verbatim>\<open>r{1,3}\<close>.\<close>

definition RPlus :: "rx \<Rightarrow> rx" where
  "RPlus r = RSeq r (RStar r)"

definition ROpt :: "rx \<Rightarrow> rx" where
  "ROpt r = RAlt r REps"

definition RTwice :: "rx \<Rightarrow> rx" where
  "RTwice r = RSeq r r"

definition RThrice :: "rx \<Rightarrow> rx" where
  "RThrice r = RSeq r (RSeq r r)"

definition ROneOrTwo :: "rx \<Rightarrow> rx" where
  "ROneOrTwo r = RSeq r (ROpt r)"

definition ROneToThree :: "rx \<Rightarrow> rx" where
  "ROneToThree r = RSeq r (ROpt (RSeq r (ROpt r)))"

text \<open>A literal string.\<close>

fun RLit :: "string \<Rightarrow> rx" where
  "RLit [] = REps"
| "RLit (c # cs) = RSeq (RChar (Lit c)) (RLit cs)"

text \<open>\<^verbatim>\<open>/^(\d{1,3}\.){3}\d{1,3}\/\d{1,2}$/\<close>\<close>

definition cidrRegex :: rx where
  "cidrRegex =
     RSeq (RThrice (RSeq (ROneToThree (RChar Digit)) (RChar (Lit CHR ''.''))))
       (RSeq (ROneToThree (RChar Digit))
          (RSeq (RChar (Lit CHR ''/'')) (ROneOrTwo (RChar Digit))))"

text \<open>\<^verbatim>\<open>/^[a-z]{2}-[a-z]+-\d+$/\<close>\<close>

definition regionRegex :: rx where
  "regionRegex =
     RSeq (RTwice (RChar Lower))
       (RSeq (RChar (Lit CHR ''-''))
          (RSeq (RPlus (RChar Lower))
             (RSeq (RChar (Lit CHR ''-'')) (RPlus (RChar Digit)))))"

text \<open>\<^verbatim>\<open>/^[a-z]{2}-[a-z]+-\d+[a-z]$/\<close>\<close>

definition availabilityZoneRegex :: rx where
  "availabilityZoneRegex =
     RSeq (RTwice (RChar Lower))
       (RSeq (RChar (Lit CHR ''-''))
          (RSeq (RPlus (RChar Lower))
             (RSeq (RChar (Lit CHR ''-''))
                (RSeq (RPlus (RChar Digit)) (RChar Lower)))))"

text \<open>\<^verbatim>\<open>/^[a-z]\d+[a-z]*\.[a-z0-9]+$/\<close>\<close>

definition validInstanceTypePattern :: rx where
  "validInstanceTypePattern =
     RSeq (RChar Lower)
       (RSeq (RPlus (RChar Digit))
          (RSeq (RStar (RChar Lower))
             (RSeq (RChar (Lit CHR ''.'')) (RPlus (RChar LowerOrDigit)))))"

text \<open>\<^verbatim>\<open>/^db\.[a-z]\d+\.[a-z0-9]+$/\<close>\<close>

definition validDbInstancePattern :: rx where
  "validDbInstancePattern =
     RSeq (RLit ''db.'')
       (RSeq (RChar Lower)
          (RSeq (RPlus (RChar Digit))
             (RSeq (RChar (Lit CHR ''.'')) (RPlus (RChar LowerOrDigit)))))"

text \<open>\<^verbatim>\<open>/^\d+\.\d+(\.\d+)?$/\<close>\<close>

definition engineVersionRegex :: rx where
  "engineVersionRegex =
     RSeq (RPlus (RChar Digit))
       (RSeq (RChar (Lit CHR ''.''))
          (RSeq (RPlus (RChar Digit))
             (ROpt (RSeq (RChar (Lit CHR ''.'')) (RPlus (RChar Digit))))))"

section \<open>ConfigurationValidator\<close>

text \<open>
  \<^verbatim>\<open>validateCidrBlock\<close>: the regular expression, then the prefix length read with
  \<^verbatim>\<open>parseInt\<close> and the octets read with \<^verbatim>\<open>Number\<close>. A comparison with \<^verbatim>\<open>NaN\<close> is false.
\<close>

definition validateCidrBlock :: "string \<Rightarrow> bool" where
  "validateCidrBlock cidr =
     (if \<not> test cidrRegex cidr then False
      else
        (let parts = split cidr CHR ''/'';
             ip = (case parts of [] \<Rightarrow> [] | a # _ \<Rightarrow> a);
             prefixStr = (case parts of a # b # _ \<Rightarrow> Some b | _ \<Rightarrow> None);
             prefix = parseInt10 prefixStr
         in if (case prefix of None \<Rightarrow> False | Some p \<Rightarrow> p < 8 \<or> p > 28) then False
            else
              (let octets = map Number (split ip CHR ''.'')
               in list_all (\<lambda>octet. case octet of None \<Rightarrow> False | Some n \<Rightarrow> 0 \<le> n \<and> n \<le> 255)
                    octets)))"

text \<open>
  \<^verbatim>\<open>cidrBlocksOverlap\<close>: equal strings, or the same text before the second dot of the
  address part. \<^verbatim>\<open>const [ip1, prefix1] = cidr1.split('/')\<close> binds \<open>ip1\<close> to the first part.
\<close>

definition cidrBlocksOverlap :: "string \<Rightarrow> string \<Rightarrow> bool" where
  "cidrBlocksOverlap cidr1 cidr2 =
     (if cidr1 = cidr2 then True
      else
        (let ip1 = (case split cidr1 CHR ''/'' of [] \<Rightarrow> [] | a # _ \<Rightarrow> a);
             ip2 = (case split cidr2 CHR ''/'' of [] \<Rightarrow> [] | a # _ \<Rightarrow> a);
             network1 = join (slice0 (split ip1 CHR ''.'') 2) CHR ''.'';
             network2 = join (slice0 (split ip2 CHR ''.'') 2) CHR ''.''
         in network1 = network2))"

definition validateRegionName :: "string \<Rightarrow> bool" where
  "validateRegionName regionName = test regionRegex regionName"

definition validateAvailabilityZone :: "string \<Rightarrow> string \<Rightarrow> bool" where
  "validateAvailabilityZone az regionName =
     (startsWith az regionName \<and> test availabilityZoneRegex az)"

definition validateInstanceType :: "string \<Rightarrow> bool" where
  "validateInstanceType instanceType = test validInstanceTypePattern instanceType"

definition validateRdsInstanceClass :: "string \<Rightarrow> bool" where
  "validateRdsInstanceClass instanceClass = test validDbInstancePattern instanceClass"

section \<open>Configuration types\<close>

text \<open>
  The interfaces of \<^verbatim>\<open>cdk/config/types.ts\<close>. The two fields \<^verbatim>\<open>iot\<close> and \<^verbatim>\<open>payment\<close> of
  \<^verbatim>\<open>instanceTypes\<close> and of \<^verbatim>\<open>databaseConfig\<close> carry the record's name here, and the two of
  \<^verbatim>\<open>stackNaming\<close> the prefix \<open>naming\<close>. A field marked optional in the source is an
  \<open>option\<close>. \<^verbatim>\<open>regions\<close> is an \<open>option\<close> as well: the type declares it, but the validation
  guards against its absence (\<^verbatim>\<open>!envConfig.regions\<close>) and a configuration read from JSON
  may lack it. Every other field is present, as its type says; the sizes
  \<^verbatim>\<open>allocatedStorage\<close> and \<^verbatim>\<open>backupRetentionPeriod\<close> are whole numbers.
\<close>

record DatabaseConfig =
  instanceClass :: string
  allocatedStorage :: int
  multiAz :: bool
  backupRetentionPeriod :: int
  engineVersion :: "string option"
  encrypted :: "bool option"

record InstanceTypes =
  instanceTypesIot :: string
  instanceTypesPayment :: string

record DatabaseConfigs =
  databaseConfigIot :: DatabaseConfig
  databaseConfigPayment :: DatabaseConfig

record RegionConfig =
  regionName :: string
  cidrBlock :: string
  availabilityZones :: "string list"
  deployIoT :: bool
  deployPayment :: bool
  deployDemo :: bool
  instanceTypes :: InstanceTypes
  databaseConfig :: DatabaseConfigs

record StackNaming =
  namingPrefix :: string
  namingSuffix :: string

record CostOptimization =
  useSpotInstances :: bool
  enableAutoScaling :: bool

record EnvironmentSettings =
  enableCdkNag :: bool
  enableDetailedMonitoring :: bool
  costOptimization :: CostOptimization

record EnvironmentConfig =
  regions :: "RegionConfig list option"
  stackNaming :: StackNaming
  tags :: "(string \<times> string) list"
  settings :: EnvironmentSettings

record CrossRegionSettings =
  enableTransitGateway :: bool
  paymentApiEndpoint :: string
  primaryRegion :: string

text \<open>
  \<^verbatim>\<open>environments\<close> is an object keyed by environment name: an association list in the
  order in which \<^verbatim>\<open>Object.keys\<close> enumerates it, read with \<^const>\<open>map_of\<close>.
\<close>

record DeploymentConfig =
  environments :: "(string \<times> EnvironmentConfig) list"
  crossRegionSettings :: CrossRegionSettings

definition Object_keys :: "('k \<times> 'v) list \<Rightarrow> 'k list" where
  "Object_keys obj = map fst obj"

definition Object_values :: "('k \<times> 'v) list \<Rightarrow> 'v list" where
  "Object_values obj = map snd obj"

text \<open>
  Every \<^verbatim>\<open>throw new Error(...)\<close> of the configuration manager is one constructor, with the
  values its message interpolates. \<open>TypeError\<close> is the engine's own error on reading a
  property of \<^verbatim>\<open>undefined\<close>; it carries the property's name.
\<close>

datatype ConfigurationError =
    NoEnvironmentConfigurations
  | CurrentEnvironmentNotFound string
  | PrimaryRegionNotSpecified
  | PaymentApiEndpointNotSpecified
  | PrimaryRegionNotFound string
  | NoRegionsConfigured string
  | OverlappingCidrBlocks
  | InvalidCidrBlockFormat string
  | InvalidRegionNameFormat string
  | TooFewAvailabilityZones string
  | AvailabilityZoneMismatch string string
  | InvalidIoTInstanceType string string
  | InvalidPaymentInstanceType string string
  | InvalidDatabaseInstanceClass string string string
  | AllocatedStorageOutOfRange string string
  | BackupRetentionOutOfRange string string
  | InvalidEngineVersion string string string
  | PrimaryRegionPaymentDisabled string
  | TypeError string

text \<open>\<^verbatim>\<open>xs.forEach(f)\<close> where \<open>f\<close> may throw: the first error ends the loop.\<close>

fun forEach :: "'a list \<Rightarrow> ('a \<Rightarrow> 'e + unit) \<Rightarrow> 'e + unit" where
  "forEach [] f = Inr ()"
| "forEach (x # xs) f = (case f x of Inl e \<Rightarrow> Inl e | Inr u \<Rightarrow> forEach xs f)"

section \<open>Default configuration\<close>

text \<open>\<^verbatim>\<open>DEFAULT_REGIONS\<close> and \<^verbatim>\<open>DEFAULT_DEPLOYMENT_CONFIG\<close> of \<^verbatim>\<open>cdk/config/regions.ts\<close>.\<close>

definition defaultDatabaseConfigs :: DatabaseConfigs where
  "defaultDatabaseConfigs =
     \<lparr>databaseConfigIot =
        \<lparr>instanceClass = ''db.t3.micro'', allocatedStorage = 20, multiAz = True,
         backupRetentionPeriod = 7, engineVersion = Some ''8.0.35'', encrypted = Some True\<rparr>,
      databaseConfigPayment =
        \<lparr>instanceClass = ''db.t3.small'', allocatedStorage = 100, multiAz = True,
         backupRetentionPeriod = 30, engineVersion = Some ''8.0.35'', encrypted = Some True\<rparr>\<rparr>"

definition defaultInstanceTypes :: InstanceTypes where
  "defaultInstanceTypes = \<lparr>instanceTypesIot = ''t3.medium'', instanceTypesPayment = ''t3.large''\<rparr>"

definition usEast1 :: RegionConfig where
  "usEast1 =
     \<lparr>regionName = ''us-east-1'', cidrBlock = ''10.1.0.0/16'',
      availabilityZones = [''us-east-1a'', ''us-east-1b''],
      deployIoT = True, deployPayment = True, deployDemo = True,
      instanceTypes = defaultInstanceTypes, databaseConfig = defaultDatabaseConfigs\<rparr>"

definition euCentral1 :: RegionConfig where
  "euCentral1 =
     \<lparr>regionName = ''eu-central-1'', cidrBlock = ''10.3.0.0/16'',
      availabilityZones = [''eu-central-1a'', ''eu-central-1b''],
      deployIoT = True, deployPayment = False, deployDemo = False,
      instanceTypes = defaultInstanceTypes, databaseConfig = defaultDatabaseConfigs\<rparr>"

definition apSoutheast2 :: RegionConfig where
  "apSoutheast2 =
     \<lparr>regionName = ''ap-southeast-2'', cidrBlock = ''10.4.0.0/16'',
      availabilityZones = [''ap-southeast-2a'', ''ap-southeast-2b''],
      deployIoT = True, deployPayment = False, deployDemo = False,
      instanceTypes = defaultInstanceTypes, databaseConfig = defaultDatabaseConfigs\<rparr>"

definition DEFAULT_REGIONS :: "(string \<times> RegionConfig) list" where
  "DEFAULT_REGIONS =
     [(''us-east-1'', usEast1), (''eu-central-1'', euCentral1), (''ap-southeast-2'', apSoutheast2)]"

definition defaultTags :: "string \<Rightarrow> (string \<times> string) list" where
  "defaultTags env =
     [(''Environment'', env), (''Project'', ''AWS-Multi-Region-CDK-Demo''),
      (''Owner'', ''DevOps-Team''), (''CostCenter'', ''Engineering'')]"

definition developmentEnvironment :: EnvironmentConfig where
  "developmentEnvironment =
     \<lparr>regions = Some [usEast1],
      stackNaming = \<lparr>namingPrefix = ''MultiRegionDemo'', namingSuffix = ''Dev''\<rparr>,
      tags = defaultTags ''Development'',
      settings =
        \<lparr>enableCdkNag = True, enableDetailedMonitoring = False,
         costOptimization = \<lparr>useSpotInstances = True, enableAutoScaling = True\<rparr>\<rparr>\<rparr>"

definition productionEnvironment :: EnvironmentConfig where
  "productionEnvironment =
     \<lparr>regions = Some [usEast1, euCentral1, apSoutheast2],
      stackNaming = \<lparr>namingPrefix = ''MultiRegionDemo'', namingSuffix = ''Prod''\<rparr>,
      tags = defaultTags ''Production'',
      settings =
        \<lparr>enableCdkNag = True, enableDetailedMonitoring = True,
         costOptimization = \<lparr>useSpotInstances = False, enableAutoScaling = True\<rparr>\<rparr>\<rparr>"

definition DEFAULT_DEPLOYMENT_CONFIG :: DeploymentConfig where
  "DEFAULT_DEPLOYMENT_CONFIG =
     \<lparr>environments =
        [(''development'', developmentEnvironment), (''production'', productionEnvironment)],
      crossRegionSettings =
        \<lparr>enableTransitGateway = True,
         paymentApiEndpoint = ''https://payment-api.us-east-1.amazonaws.com'',
         primaryRegion = ''us-east-1''\<rparr>\<rparr>"

section \<open>ConfigurationManager\<close>

record ConfigurationManager =
  deploymentConfig :: DeploymentConfig
  currentEnvironment :: string

subsection \<open>Validation\<close>

text \<open>
  Each private method returns normally (\<open>Inr ()\<close>) or throws (\<open>Inl\<close> of the error). An empty
  string is falsy, so \<^verbatim>\<open>!settings.primaryRegion\<close> holds of the empty string.
  \<^verbatim>\<open>environments[name]\<close> is read as a lookup among the object's own keys; the names every
  object inherits (\<^verbatim>\<open>constructor\<close>, \<^verbatim>\<open>toString\<close> and the like), which the source's property
  read would also find, are not modelled as environment names.
\<close>

definition validateEnvironments :: "ConfigurationManager \<Rightarrow> ConfigurationError + unit" where
  "validateEnvironments this =
     (if length (Object_keys (environments (deploymentConfig this))) = 0
      then Inl NoEnvironmentConfigurations
      else if map_of (environments (deploymentConfig this)) (currentEnvironment this) = None
      then Inl (CurrentEnvironmentNotFound (currentEnvironment this))
      else Inr ())"

text \<open>
  \<^verbatim>\<open>Object.values(environments).some(env => env.regions.some(r => r.regionName === p))\<close>:
  the environments are visited in order up to the first that holds the region; one without
  \<^verbatim>\<open>regions\<close> met on the way makes \<^verbatim>\<open>env.regions.some\<close> a \<open>TypeError\<close>.
\<close>

fun primaryRegionExists :: "EnvironmentConfig list \<Rightarrow> string \<Rightarrow> ConfigurationError + bool" where
  "primaryRegionExists [] p = Inr False"
| "primaryRegionExists (env # envs) p =
     (case regions env of
        None \<Rightarrow> Inl (TypeError ''some'')
      | Some rs \<Rightarrow>
          if list_ex (\<lambda>r. regionName r = p) rs then Inr True
          else primaryRegionExists envs p)"

definition validateCrossRegionSettings :: "ConfigurationManager \<Rightarrow> ConfigurationError + unit" where
  "validateCrossRegionSettings this =
     (let settings = crossRegionSettings (deploymentConfig this)
      in if primaryRegion settings = [] then Inl PrimaryRegionNotSpecified
         else if paymentApiEndpoint settings = [] then Inl PaymentApiEndpointNotSpecified
         else
           (case primaryRegionExists (Object_values (environments (deploymentConfig this)))
                   (primaryRegion settings) of
              Inl e \<Rightarrow> Inl e
            | Inr found \<Rightarrow>
                if \<not> found then Inl (PrimaryRegionNotFound (primaryRegion settings))
                else Inr ()))"

text \<open>
  \<^verbatim>\<open>validateCidrBlocks\<close>: \<^verbatim>\<open>new Set(cidrBlocks)\<close> keeps one copy of each string, so the
  sizes differ exactly when a string occurs twice; then the format of each block.
\<close>

definition validateCidrBlocks :: "RegionConfig list \<Rightarrow> ConfigurationError + unit" where
  "validateCidrBlocks rs =
     (let cidrBlocks = map cidrBlock rs;
          uniqueCidrBlocks = remdups cidrBlocks
      in if length cidrBlocks \<noteq> length uniqueCidrBlocks then Inl OverlappingCidrBlocks
         else
           forEach cidrBlocks
             (\<lambda>cidr. if \<not> test cidrRegex cidr then Inl (InvalidCidrBlockFormat cidr) else Inr ()))"

definition validateInstanceTypes :: "InstanceTypes \<Rightarrow> string \<Rightarrow> ConfigurationError + unit" where
  "validateInstanceTypes types name =
     (if \<not> test validInstanceTypePattern (instanceTypesIot types)
      then Inl (InvalidIoTInstanceType name (instanceTypesIot types))
      else if \<not> test validInstanceTypePattern (instanceTypesPayment types)
      then Inl (InvalidPaymentInstanceType name (instanceTypesPayment types))
      else Inr ())"

text \<open>
  \<^verbatim>\<open>validateDatabaseConfig\<close>; \<open>type\<close> is \<^verbatim>\<open>'IoT'\<close> or \<^verbatim>\<open>'Payment'\<close>. An absent or empty
  \<^verbatim>\<open>engineVersion\<close> is falsy and skips the last check.
\<close>

definition validateDatabaseConfig ::
  "DatabaseConfig \<Rightarrow> string \<Rightarrow> string \<Rightarrow> ConfigurationError + unit" where
  "validateDatabaseConfig dbConfig type name =
     (if \<not> test validDbInstancePattern (instanceClass dbConfig)
      then Inl (InvalidDatabaseInstanceClass type name (instanceClass dbConfig))
      else if allocatedStorage dbConfig < 20 \<or> allocatedStorage dbConfig > 65536
      then Inl (AllocatedStorageOutOfRange type name)
      else if backupRetentionPeriod dbConfig < 0 \<or> backupRetentionPeriod dbConfig > 35
      then Inl (BackupRetentionOutOfRange type name)
      else
        (case engineVersion dbConfig of
           None \<Rightarrow> Inr ()
         | Some v \<Rightarrow>
             if v \<noteq> [] \<and> \<not> test engineVersionRegex v
             then Inl (InvalidEngineVersion type name v)
             else Inr ()))"

definition validateRegionConfiguration :: "RegionConfig \<Rightarrow> ConfigurationError + unit" where
  "validateRegionConfiguration region =
     (if \<not> test regionRegex (regionName region)
      then Inl (InvalidRegionNameFormat (regionName region))
      else if length (availabilityZones region) < 2
      then Inl (TooFewAvailabilityZones (regionName region))
      else
        (case forEach (availabilityZones region)
                (\<lambda>az. if \<not> startsWith az (regionName region)
                      then Inl (AvailabilityZoneMismatch az (regionName region))
                      else Inr ()) of
           Inl e \<Rightarrow> Inl e
         | Inr u \<Rightarrow>
             (case validateInstanceTypes (instanceTypes region) (regionName region) of
                Inl e \<Rightarrow> Inl e
              | Inr u \<Rightarrow>
                  (case validateDatabaseConfig (databaseConfigIot (databaseConfig region))
                          ''IoT'' (regionName region) of
                     Inl e \<Rightarrow> Inl e
                   | Inr u \<Rightarrow>
                       validateDatabaseConfig (databaseConfigPayment (databaseConfig region))
                         ''Payment'' (regionName region)))))"

text \<open>
  \<^verbatim>\<open>validateEnvironmentConfiguration\<close>. For a name that is no key of \<^verbatim>\<open>environments\<close> the
  source would read \<^verbatim>\<open>regions\<close> of \<^verbatim>\<open>undefined\<close>; \<^verbatim>\<open>validateConfiguration\<close> passes keys only.
  \<^verbatim>\<open>regions.find(...)\<close> is the first region with the primary region's name, if any.
\<close>

definition validateEnvironmentConfiguration ::
  "ConfigurationManager \<Rightarrow> string \<Rightarrow> ConfigurationError + unit" where
  "validateEnvironmentConfiguration this environment =
     (case map_of (environments (deploymentConfig this)) environment of
        None \<Rightarrow> Inl (TypeError ''regions'')
      | Some envConfig \<Rightarrow>
          (case regions envConfig of
             None \<Rightarrow> Inl (NoRegionsConfigured environment)
           | Some rs \<Rightarrow>
               if length rs = 0 then Inl (NoRegionsConfigured environment)
               else
                 (case validateCidrBlocks rs of
                    Inl e \<Rightarrow> Inl e
                  | Inr u \<Rightarrow>
                      (case forEach rs validateRegionConfiguration of
                         Inl e \<Rightarrow> Inl e
                       | Inr u \<Rightarrow>
                           (let primary = primaryRegion (crossRegionSettings (deploymentConfig this));
                                primaryRegionInEnv = find (\<lambda>r. regionName r = primary) rs
                            in case primaryRegionInEnv of
                                 None \<Rightarrow> Inr ()
                               | Some r \<Rightarrow>
                                   if \<not> deployPayment r
                                   then Inl (PrimaryRegionPaymentDisabled primary)
                                   else Inr ())))))"

definition validateConfiguration :: "ConfigurationManager \<Rightarrow> ConfigurationError + unit" where
  "validateConfiguration this =
     (case validateEnvironments this of
        Inl e \<Rightarrow> Inl e
      | Inr u \<Rightarrow>
          (case validateCrossRegionSettings this of
             Inl e \<Rightarrow> Inl e
           | Inr u \<Rightarrow>
               forEach (Object_keys (environments (deploymentConfig this)))
                 (validateEnvironmentConfiguration this)))"

text \<open>
  The constructor: \<^verbatim>\<open>environment\<close> defaults to \<^verbatim>\<open>'development'\<close>, \<^verbatim>\<open>customConfig\<close> to the
  default configuration; the manager exists only if the validation does not throw.
\<close>

definition newConfigurationManager ::
  "string option \<Rightarrow> DeploymentConfig option \<Rightarrow> ConfigurationError + ConfigurationManager" where
  "newConfigurationManager environment customConfig =
     (let this =
            \<lparr>deploymentConfig =
               (case customConfig of None \<Rightarrow> DEFAULT_DEPLOYMENT_CONFIG | Some c \<Rightarrow> c),
             currentEnvironment =
               (case environment of None \<Rightarrow> ''development'' | Some e \<Rightarrow> e)\<rparr>
      in case validateConfiguration this of
           Inl e \<Rightarrow> Inl e
         | Inr u \<Rightarrow> Inr this)"

subsection \<open>Queries\<close>

definition getPrimaryRegion :: "ConfigurationManager \<Rightarrow> string" where
  "getPrimaryRegion this = primaryRegion (crossRegionSettings (deploymentConfig this))"

definition shouldEnableTransitGateway :: "ConfigurationManager \<Rightarrow> string \<Rightarrow> bool" where
  "shouldEnableTransitGateway this name =
     (enableTransitGateway (crossRegionSettings (deploymentConfig this)) \<and>
      name = getPrimaryRegion this)"

section \<open>NetworkStack\<close>

text \<open>
  \<^verbatim>\<open>cdk/stacks/network-stack.ts\<close> builds its resources through the CDK library. The model
  records what the stack asks of the library: the properties each security group is
  constructed with and the ingress rules added to it, in the order of the calls. A
  security group passed as a peer is named by its construct.
\<close>

record NetworkStackProps =
  propsRegion :: string
  propsCidrBlock :: string
  propsEnableTransitGateway :: "bool option"
  propsEnvironment :: string
  propsTags :: "(string \<times> string) list option"

datatype SecurityGroupId = WebSecurityGroup | AppSecurityGroup | DatabaseSecurityGroup

datatype Peer = AnyIpv4 | GroupPeer SecurityGroupId

datatype Port = Tcp nat | AllTraffic

record IngressRule =
  rulePeer :: Peer
  rulePort :: Port
  ruleDescription :: string

record SecurityGroup =
  groupId :: SecurityGroupId
  groupDescription :: string
  allowAllOutbound :: bool
  ingress :: "IngressRule list"

definition newSecurityGroup :: "SecurityGroupId \<Rightarrow> string \<Rightarrow> bool \<Rightarrow> SecurityGroup" where
  "newSecurityGroup i d out =
     \<lparr>groupId = i, groupDescription = d, allowAllOutbound = out, ingress = []\<rparr>"

definition addIngressRule :: "SecurityGroup \<Rightarrow> Peer \<Rightarrow> Port \<Rightarrow> string \<Rightarrow> SecurityGroup" where
  "addIngressRule sg p q d =
     sg\<lparr>ingress := ingress sg @ [\<lparr>rulePeer = p, rulePort = q, ruleDescription = d\<rparr>]\<rparr>"

definition configureSecurityGroupRules ::
  "SecurityGroup \<Rightarrow> SecurityGroup \<Rightarrow> SecurityGroup \<Rightarrow> SecurityGroup \<times> SecurityGroup \<times> SecurityGroup" where
  "configureSecurityGroupRules webSg appSg dbSg =
     (let webSg = addIngressRule webSg AnyIpv4 (Tcp 80) ''Allow HTTP traffic from internet'';
          webSg = addIngressRule webSg AnyIpv4 (Tcp 443) ''Allow HTTPS traffic from internet'';
          appSg = addIngressRule appSg (GroupPeer (groupId webSg)) (Tcp 8080)
                    ''Allow HTTP traffic from web tier'';
          appSg = addIngressRule appSg (GroupPeer (groupId webSg)) (Tcp 8443)
                    ''Allow HTTPS traffic from web tier'';
          appSg = addIngressRule appSg (GroupPeer (groupId appSg)) AllTraffic
                    ''Allow communication within app tier'';
          dbSg = addIngressRule dbSg (GroupPeer (groupId appSg)) (Tcp 3306)
                    ''Allow MySQL access from app tier'';
          dbSg = addIngressRule dbSg (GroupPeer (groupId appSg)) (Tcp 6379)
                    ''Allow Redis access from app tier'';
          dbSg = addIngressRule dbSg (GroupPeer (groupId dbSg)) AllTraffic
                    ''Allow communication within database tier'';
          appSg = addIngressRule appSg AnyIpv4 (Tcp 8883)
                    ''Allow MQTT over TLS for IoT devices'';
          appSg = addIngressRule appSg AnyIpv4 (Tcp 443)
                    ''Allow HTTPS for IoT device management''
      in (webSg, appSg, dbSg))"

record NetworkStack =
  vpcCidr :: string
  maxAzs :: nat
  natGateways :: nat
  webSecurityGroup :: SecurityGroup
  appSecurityGroup :: SecurityGroup
  databaseSecurityGroup :: SecurityGroup
  transitGateway :: bool

definition newNetworkStack :: "NetworkStackProps \<Rightarrow> NetworkStack" where
  "newNetworkStack props =
     (let webSg = newSecurityGroup WebSecurityGroup
                    ''Security group for web tier (ALB, public-facing services)'' True;
          appSg = newSecurityGroup AppSecurityGroup
                    ''Security group for application tier (EC2, ECS)'' True;
          dbSg = newSecurityGroup DatabaseSecurityGroup
                    ''Security group for database tier (RDS, ElastiCache)'' False
      in case configureSecurityGroupRules webSg appSg dbSg of
           (webSg, appSg, dbSg) \<Rightarrow>
             \<lparr>vpcCidr = propsCidrBlock props, maxAzs = 2, natGateways = 2,
              webSecurityGroup = webSg, appSecurityGroup = appSg, databaseSecurityGroup = dbSg,
              transitGateway =
                (case propsEnableTransitGateway props of None \<Rightarrow> False | Some b \<Rightarrow> b)\<rparr>)"

text \<open>\<^verbatim>\<open>cdk/main.ts\<close>: the properties of the network stack of one region of the environment.\<close>

definition networkStackProps ::
  "ConfigurationManager \<Rightarrow> string \<Rightarrow> (string \<times> string) list \<Rightarrow> RegionConfig \<Rightarrow> NetworkStackProps" where
  "networkStackProps configManager env commonTags regionConfig =
     \<lparr>propsRegion = regionName regionConfig,
      propsCidrBlock = cidrBlock regionConfig,
      propsEnableTransitGateway =
        Some (shouldEnableTransitGateway configManager (regionName regionConfig)),
      propsEnvironment = env,
      propsTags = Some commonTags\<rparr>"

section \<open>Vocabulary of the statements\<close>

subsection \<open>The language of a regular expression\<close>

text \<open>
  The strings an expression denotes, against which \<^const>\<open>test\<close> is proved correct below.
\<close>

definition conc :: "string set \<Rightarrow> string set \<Rightarrow> string set" where
  "conc A B = {w. \<exists>u v. w = u @ v \<and> u \<in> A \<and> v \<in> B}"

inductive_set star :: "string set \<Rightarrow> string set" for A :: "string set" where
  star_empty: "[] \<in> star A"
| star_step: "u \<in> A \<Longrightarrow> v \<in> star A \<Longrightarrow> u @ v \<in> star A"

fun lang :: "rx \<Rightarrow> string set" where
  "lang RNone = {}"
| "lang REps = {[]}"
| "lang (RChar k) = {w. \<exists>c. w = [c] \<and> inClass k c}"
| "lang (RAlt r s) = lang r \<union> lang s"
| "lang (RSeq r s) = conc (lang r) (lang s)"
| "lang (RStar r) = star (lang r)"

subsection \<open>Well-formed texts\<close>

text \<open>A string of between \<open>lo\<close> and \<open>hi\<close> decimal digits.\<close>

definition digits :: "nat \<Rightarrow> nat \<Rightarrow> string \<Rightarrow> bool" where
  "digits lo hi w = (lo \<le> length w \<and> length w \<le> hi \<and> list_all isDigit w)"

text \<open>
  The texts of \<^verbatim>\<open>^[a-z]{2}-[a-z]+-\d+$\<close>: two lower-case letters, a hyphen, lower-case
  letters, a hyphen, digits.
\<close>

definition regionNameText :: "string \<Rightarrow> bool" where
  "regionNameText w =
     (\<exists>a b n. w = a @ ''-'' @ b @ ''-'' @ n \<and>
        length a = 2 \<and> list_all isLower a \<and>
        b \<noteq> [] \<and> list_all isLower b \<and>
        n \<noteq> [] \<and> list_all isDigit n)"

subsection \<open>Configurations of the examples\<close>

text \<open>
  The environment and the bundle that \<^verbatim>\<open>cdk/test/config-manager.test.ts\<close> builds around a
  list of regions: one environment \<^verbatim>\<open>test\<close>, primary region \<^verbatim>\<open>us-east-1\<close>.
\<close>

definition testEnvironment :: "RegionConfig list option \<Rightarrow> EnvironmentConfig" where
  "testEnvironment rs =
     \<lparr>regions = rs,
      stackNaming = \<lparr>namingPrefix = ''Test'', namingSuffix = ''Stack''\<rparr>,
      tags = [],
      settings =
        \<lparr>enableCdkNag = False, enableDetailedMonitoring = False,
         costOptimization = \<lparr>useSpotInstances = False, enableAutoScaling = False\<rparr>\<rparr>\<rparr>"

definition testConfig :: "(string \<times> EnvironmentConfig) list \<Rightarrow> DeploymentConfig" where
  "testConfig envs =
     \<lparr>environments = envs,
      crossRegionSettings =
        \<lparr>enableTransitGateway = False, paymentApiEndpoint = ''https://test.com'',
         primaryRegion = ''us-east-1''\<rparr>\<rparr>"

definition defaultManager :: ConfigurationManager where
  "defaultManager =
     \<lparr>deploymentConfig = DEFAULT_DEPLOYMENT_CONFIG, currentEnvironment = ''development''\<rparr>"

text \<open>
  Two environments, the primary region \<^verbatim>\<open>us-east-1\<close> in the first only; and a bundle whose
  only environment does not hold the primary region.
\<close>

definition twoEnvironments :: DeploymentConfig where
  "twoEnvironments =
     \<lparr>environments =
        [(''development'', developmentEnvironment),
         (''europe'', testEnvironment (Some [euCentral1]))],
      crossRegionSettings = crossRegionSettings DEFAULT_DEPLOYMENT_CONFIG\<rparr>"

definition europeOnly :: DeploymentConfig where
  "europeOnly = testConfig [(''test'', testEnvironment (Some [euCentral1]))]"

text \<open>
  Two regions of one environment with the same block (the test
  \<^verbatim>\<open>should validate overlapping CIDR blocks\<close>), and with blocks that differ as strings but
  share the first two octets.
\<close>

definition sameBlocks :: DeploymentConfig where
  "sameBlocks =
     testConfig
       [(''test'', testEnvironment (Some [usEast1, euCentral1\<lparr>cidrBlock := ''10.1.0.0/16''\<rparr>]))]"

definition networkEqualBlocks :: DeploymentConfig where
  "networkEqualBlocks =
     testConfig
       [(''test'', testEnvironment (Some [usEast1, euCentral1\<lparr>cidrBlock := ''10.1.5.0/24''\<rparr>]))]"

text \<open>
  The primary region without payment deployment (the test
  \<^verbatim>\<open>should validate primary region has payment deployment\<close>), and an environment that names
  the primary region twice, the second time without payment deployment.
\<close>

definition primaryWithoutPayment :: DeploymentConfig where
  "primaryWithoutPayment =
     testConfig [(''test'', testEnvironment (Some [usEast1\<lparr>deployPayment := False\<rparr>]))]"

definition duplicatePrimary :: DeploymentConfig where
  "duplicatePrimary =
     testConfig
       [(''test'', testEnvironment
          (Some [usEast1, usEast1\<lparr>cidrBlock := ''10.2.0.0/16'', deployPayment := False\<rparr>]))]"

text \<open>
  One region name used twice, and the malformed region name of the test
  \<^verbatim>\<open>should validate region name format\<close>.
\<close>

definition duplicateNames :: DeploymentConfig where
  "duplicateNames =
     testConfig [(''test'', testEnvironment (Some [usEast1, usEast1\<lparr>cidrBlock := ''10.2.0.0/16''\<rparr>]))]"

definition invalidRegionName :: DeploymentConfig where
  "invalidRegionName =
     (testConfig [(''test'', testEnvironment (Some [usEast1\<lparr>regionName := ''invalid-region''\<rparr>]))])
       \<lparr>crossRegionSettings :=
          \<lparr>enableTransitGateway = False, paymentApiEndpoint = ''https://test.com'',
           primaryRegion = ''invalid-region''\<rparr>\<rparr>"

text \<open>
  A single availability zone (the test \<^verbatim>\<open>should validate availability zones\<close>), a zone of
  another region, and a zone that starts with the region's name without being a zone name.
\<close>

definition oneZone :: DeploymentConfig where
  "oneZone =
     testConfig [(''test'', testEnvironment (Some [usEast1\<lparr>availabilityZones := [''us-east-1a'']\<rparr>]))]"

definition foreignZone :: RegionConfig where
  "foreignZone = usEast1\<lparr>availabilityZones := [''us-east-1a'', ''us-west-1a'']\<rparr>"

definition malformedZone :: DeploymentConfig where
  "malformedZone =
     testConfig
       [(''test'', testEnvironment
          (Some [usEast1\<lparr>availabilityZones := [''us-east-1a'', ''us-east-1-zone-b'']\<rparr>]))]"

text \<open>
  An only environment without regions, and a second environment whose \<^verbatim>\<open>regions\<close> is empty
  or absent.
\<close>

definition emptyRegions :: DeploymentConfig where
  "emptyRegions = testConfig [(''test'', testEnvironment (Some []))]"

definition secondEnvironmentEmpty :: DeploymentConfig where
  "secondEnvironmentEmpty =
     testConfig [(''test'', testEnvironment (Some [usEast1])), (''empty'', testEnvironment (Some []))]"

definition secondEnvironmentMissing :: DeploymentConfig where
  "secondEnvironmentMissing =
     testConfig [(''test'', testEnvironment (Some [usEast1])), (''missing'', testEnvironment None)]"

section \<open>Lemmas\<close>

subsection \<open>Matching decides the language\<close>

lemma conc_Nil_iff: "[] \<in> conc A B \<longleftrightarrow> [] \<in> A \<and> [] \<in> B"
  by (auto simp: conc_def)

lemma conc_Cons_iff:
  "c # w \<in> conc A B \<longleftrightarrow>
     (\<exists>u v. w = u @ v \<and> c # u \<in> A \<and> v \<in> B) \<or> ([] \<in> A \<and> c # w \<in> B)"
proof
  assume "c # w \<in> conc A B"
  then obtain u v where uv: "c # w = u @ v" "u \<in> A" "v \<in> B"
    by (auto simp: conc_def)
  show "(\<exists>u v. w = u @ v \<and> c # u \<in> A \<and> v \<in> B) \<or> ([] \<in> A \<and> c # w \<in> B)"
  proof (cases u)
    case Nil
    with uv show ?thesis by simp
  next
    case (Cons a u')
    with uv show ?thesis by auto
  qed
next
  assume "(\<exists>u v. w = u @ v \<and> c # u \<in> A \<and> v \<in> B) \<or> ([] \<in> A \<and> c # w \<in> B)"
  then show "c # w \<in> conc A B"
  proof
    assume "\<exists>u v. w = u @ v \<and> c # u \<in> A \<and> v \<in> B"
    then obtain u v where "w = u @ v" "c # u \<in> A" "v \<in> B" by blast
    then have "c # w = (c # u) @ v \<and> c # u \<in> A \<and> v \<in> B" by simp
    then show ?thesis unfolding conc_def by blast
  next
    assume "[] \<in> A \<and> c # w \<in> B"
    then have "c # w = [] @ (c # w) \<and> [] \<in> A \<and> c # w \<in> B" by simp
    then show ?thesis unfolding conc_def by blast
  qed
qed

lemma star_Cons_split:
  assumes "x \<in> star A" and "x = c # w"
  shows "\<exists>u v. w = u @ v \<and> c # u \<in> A \<and> v \<in> star A"
  using assms
proof (induction arbitrary: w rule: star.induct)
  case star_empty
  then show ?case by simp
next
  case (star_step u v)
  show ?case
  proof (cases u)
    case Nil
    with star_step show ?thesis by simp
  next
    case (Cons a u')
    with star_step.prems have "a = c" "w = u' @ v" by simp_all
    with Cons star_step.hyps show ?thesis by blast
  qed
qed

lemma star_Cons_iff:
  "c # w \<in> star A \<longleftrightarrow> (\<exists>u v. w = u @ v \<and> c # u \<in> A \<and> v \<in> star A)"
proof
  assume "c # w \<in> star A"
  then show "\<exists>u v. w = u @ v \<and> c # u \<in> A \<and> v \<in> star A"
    by (rule star_Cons_split) simp
next
  assume "\<exists>u v. w = u @ v \<and> c # u \<in> A \<and> v \<in> star A"
  then obtain u v where "w = u @ v" "c # u \<in> A" "v \<in> star A" by blast
  then show "c # w \<in> star A"
    using star_step [of "c # u" A v] by simp
qed

lemma acceptsEmpty_lang: "acceptsEmpty r \<longleftrightarrow> [] \<in> lang r"
  by (induction r) (auto simp: conc_Nil_iff star_empty)

lemma lang_after: "w \<in> lang (after c r) \<longleftrightarrow> c # w \<in> lang r"
proof (induction r arbitrary: w)
  case (RSeq r s)
  have "c # w \<in> lang (RSeq r s) \<longleftrightarrow>
          (\<exists>u v. w = u @ v \<and> c # u \<in> lang r \<and> v \<in> lang s) \<or> ([] \<in> lang r \<and> c # w \<in> lang s)"
    by (simp add: conc_Cons_iff)
  moreover have "w \<in> lang (after c (RSeq r s)) \<longleftrightarrow>
          (\<exists>u v. w = u @ v \<and> c # u \<in> lang r \<and> v \<in> lang s) \<or> ([] \<in> lang r \<and> c # w \<in> lang s)"
    using RSeq by (auto simp: acceptsEmpty_lang conc_def)
  ultimately show ?case by blast
next
  case (RStar r)
  have "c # w \<in> lang (RStar r) \<longleftrightarrow> (\<exists>u v. w = u @ v \<and> c # u \<in> lang r \<and> v \<in> star (lang r))"
    by (simp add: star_Cons_iff)
  moreover have "w \<in> lang (after c (RStar r)) \<longleftrightarrow>
          (\<exists>u v. w = u @ v \<and> c # u \<in> lang r \<and> v \<in> star (lang r))"
    using RStar by (auto simp: conc_def)
  ultimately show ?case by blast
qed auto

lemma test_lang: "test r w \<longleftrightarrow> w \<in> lang r"
  by (induction w arbitrary: r) (simp_all add: acceptsEmpty_lang lang_after)

subsection \<open>The languages of the expressions used\<close>

lemma conc_iff: "w \<in> conc A B \<longleftrightarrow> (\<exists>u v. w = u @ v \<and> u \<in> A \<and> v \<in> B)"
  by (simp add: conc_def)

lemma lang_RChar_iff: "w \<in> lang (RChar k) \<longleftrightarrow> (\<exists>c. w = [c] \<and> inClass k c)"
  by simp

lemma star_RChar_iff: "w \<in> star (lang (RChar k)) \<longleftrightarrow> list_all (inClass k) w"
proof (induction w)
  case Nil
  show ?case by (simp add: star_empty)
next
  case (Cons c w)
  have "c # w \<in> star (lang (RChar k)) \<longleftrightarrow> inClass k c \<and> w \<in> star (lang (RChar k))"
    by (auto simp: star_Cons_iff)
  with Cons show ?case by simp
qed

lemma lang_RPlus_RChar:
  "w \<in> lang (RPlus (RChar k)) \<longleftrightarrow> w \<noteq> [] \<and> list_all (inClass k) w"
proof (cases w)
  case Nil
  then show ?thesis by (simp add: RPlus_def conc_Nil_iff)
next
  case (Cons c cs)
  have "c # cs \<in> lang (RPlus (RChar k)) \<longleftrightarrow> inClass k c \<and> cs \<in> star (lang (RChar k))"
    by (auto simp: RPlus_def conc_Cons_iff)
  with Cons star_RChar_iff [of cs k] show ?thesis by simp
qed

lemma lang_ROpt: "w \<in> lang (ROpt r) \<longleftrightarrow> w = [] \<or> w \<in> lang r"
  by (auto simp: ROpt_def)

lemma lang_RChar_then:
  "w \<in> lang (RSeq (RChar k) r) \<longleftrightarrow> (\<exists>c v. w = c # v \<and> inClass k c \<and> v \<in> lang r)"
proof
  assume "w \<in> lang (RSeq (RChar k) r)"
  then obtain u v where "w = u @ v" "u \<in> lang (RChar k)" "v \<in> lang r"
    by (auto simp: conc_iff)
  then show "\<exists>c v. w = c # v \<and> inClass k c \<and> v \<in> lang r" by auto
next
  assume "\<exists>c v. w = c # v \<and> inClass k c \<and> v \<in> lang r"
  then obtain c v where "w = c # v" "inClass k c" "v \<in> lang r" by blast
  then have "w = [c] @ v \<and> [c] \<in> lang (RChar k) \<and> v \<in> lang r" by simp
  then have "w \<in> conc (lang (RChar k)) (lang r)" unfolding conc_iff by blast
  then show "w \<in> lang (RSeq (RChar k) r)" by simp
qed

lemma lang_ROneOrTwo_RChar:
  "w \<in> lang (ROneOrTwo (RChar k)) \<longleftrightarrow> 1 \<le> length w \<and> length w \<le> 2 \<and> list_all (inClass k) w"
proof -
  have "w \<in> lang (ROneOrTwo (RChar k)) \<longleftrightarrow>
          (\<exists>c v. w = c # v \<and> inClass k c \<and> (v = [] \<or> (\<exists>d. v = [d] \<and> inClass k d)))"
    unfolding ROneOrTwo_def lang_RChar_then lang_ROpt lang_RChar_iff ..
  also have "\<dots> \<longleftrightarrow> 1 \<le> length w \<and> length w \<le> 2 \<and> list_all (inClass k) w"
    by (cases w rule: list.exhaust; cases "tl w"; cases "tl (tl w)"; auto)
  finally show ?thesis .
qed

lemma lang_ROneToThree_RChar:
  "w \<in> lang (ROneToThree (RChar k)) \<longleftrightarrow> 1 \<le> length w \<and> length w \<le> 3 \<and> list_all (inClass k) w"
proof -
  have "w \<in> lang (ROneToThree (RChar k)) \<longleftrightarrow>
          (\<exists>c v. w = c # v \<and> inClass k c \<and>
             (v = [] \<or> (\<exists>d u. v = d # u \<and> inClass k d \<and> (u = [] \<or> (\<exists>e. u = [e] \<and> inClass k e)))))"
    unfolding ROneToThree_def lang_RChar_then lang_ROpt lang_RChar_iff ..
  also have "\<dots> \<longleftrightarrow> 1 \<le> length w \<and> length w \<le> 3 \<and> list_all (inClass k) w"
    by (cases w rule: list.exhaust; cases "tl w"; cases "tl (tl w)"; cases "tl (tl (tl w))"; auto)
  finally show ?thesis .
qed

lemma lang_RTwice_RChar:
  "w \<in> lang (RTwice (RChar k)) \<longleftrightarrow> length w = 2 \<and> list_all (inClass k) w"
proof -
  have "w \<in> lang (RTwice (RChar k)) \<longleftrightarrow>
          (\<exists>c v. w = c # v \<and> inClass k c \<and> (\<exists>d. v = [d] \<and> inClass k d))"
    unfolding RTwice_def lang_RChar_then lang_RChar_iff ..
  also have "\<dots> \<longleftrightarrow> length w = 2 \<and> list_all (inClass k) w"
    by (cases w rule: list.exhaust; cases "tl w"; cases "tl (tl w)"; auto)
  finally show ?thesis .
qed

lemma lang_RSeq_iff: "w \<in> lang (RSeq r s) \<longleftrightarrow> (\<exists>u v. w = u @ v \<and> u \<in> lang r \<and> v \<in> lang s)"
  by (simp add: conc_iff)

lemma lang_RSeqE:
  assumes "w \<in> lang (RSeq r s)"
  obtains u v where "w = u @ v" "u \<in> lang r" "v \<in> lang s"
  using assms by (auto simp: conc_iff)

lemma lang_RSeqI: "u \<in> lang r \<Longrightarrow> v \<in> lang s \<Longrightarrow> u @ v \<in> lang (RSeq r s)"
  by (auto simp: conc_iff)

lemma lang_Lit_iff: "w \<in> lang (RChar (Lit c)) \<longleftrightarrow> w = [c]"
  by auto

lemma lang_digits13: "w \<in> lang (ROneToThree (RChar Digit)) \<longleftrightarrow> digits 1 3 w"
  by (simp add: lang_ROneToThree_RChar digits_def list_all_iff)

lemma lang_digits12: "w \<in> lang (ROneOrTwo (RChar Digit)) \<longleftrightarrow> digits 1 2 w"
  by (simp add: lang_ROneOrTwo_RChar digits_def list_all_iff)

lemma lang_octet_dot:
  "w \<in> lang (RSeq (ROneToThree (RChar Digit)) (RChar (Lit c))) \<longleftrightarrow>
     (\<exists>a. w = a @ [c] \<and> digits 1 3 a)"
  unfolding lang_RSeq_iff lang_Lit_iff lang_digits13 by blast

lemma lang_slash_prefix:
  "w \<in> lang (RSeq (RChar (Lit c)) (ROneOrTwo (RChar Digit))) \<longleftrightarrow>
     (\<exists>p. w = c # p \<and> digits 1 2 p)"
  unfolding lang_RSeq_iff lang_Lit_iff lang_digits12 by auto

lemma cidrRegex_lang:
  "w \<in> lang cidrRegex \<longleftrightarrow>
     (\<exists>a b c d p. w = a @ ''.'' @ b @ ''.'' @ c @ ''.'' @ d @ ''/'' @ p \<and>
        digits 1 3 a \<and> digits 1 3 b \<and> digits 1 3 c \<and> digits 1 3 d \<and> digits 1 2 p)"
  (is "?L \<longleftrightarrow> ?R")
proof
  let ?X = "RSeq (ROneToThree (RChar Digit)) (RChar (Lit CHR ''.''))"
  let ?S = "RSeq (RChar (Lit CHR ''/'')) (ROneOrTwo (RChar Digit))"
  assume ?L
  then obtain x y0 where
    w0: "w = x @ y0" and
    x: "x \<in> lang (RSeq ?X (RSeq ?X ?X))" and
    y0: "y0 \<in> lang (RSeq (ROneToThree (RChar Digit)) ?S)"
    unfolding cidrRegex_def RThrice_def by (rule lang_RSeqE)
  from x obtain x1 x23 where x1: "x = x1 @ x23" "x1 \<in> lang ?X" "x23 \<in> lang (RSeq ?X ?X)"
    by (rule lang_RSeqE)
  from x1(3) obtain x2 x3 where x2: "x23 = x2 @ x3" "x2 \<in> lang ?X" "x3 \<in> lang ?X"
    by (rule lang_RSeqE)
  from y0 obtain d y where d: "y0 = d @ y" "d \<in> lang (ROneToThree (RChar Digit))" "y \<in> lang ?S"
    by (rule lang_RSeqE)
  have w: "w = x1 @ (x2 @ x3) @ d @ y"
    using w0 x1(1) x2(1) d(1) by simp
  from x1(2) obtain a where a: "x1 = a @ ''.''" "digits 1 3 a" unfolding lang_octet_dot by blast
  from x2(2) obtain b where b: "x2 = b @ ''.''" "digits 1 3 b" unfolding lang_octet_dot by blast
  from x2(3) obtain c where c: "x3 = c @ ''.''" "digits 1 3 c" unfolding lang_octet_dot by blast
  from d(3) obtain p where p: "y = CHR ''/'' # p" "digits 1 2 p" unfolding lang_slash_prefix by blast
  from d(2) have d': "digits 1 3 d" by (simp only: lang_digits13)
  have "w = a @ ''.'' @ b @ ''.'' @ c @ ''.'' @ d @ ''/'' @ p"
    using w a(1) b(1) c(1) p(1) by simp
  with a(2) b(2) c(2) d' p(2) show ?R by blast
next
  let ?X = "RSeq (ROneToThree (RChar Digit)) (RChar (Lit CHR ''.''))"
  let ?S = "RSeq (RChar (Lit CHR ''/'')) (ROneOrTwo (RChar Digit))"
  assume ?R
  then obtain a b c d p where
    w: "w = a @ ''.'' @ b @ ''.'' @ c @ ''.'' @ d @ ''/'' @ p" and
    ds: "digits 1 3 a" "digits 1 3 b" "digits 1 3 c" "digits 1 3 d" "digits 1 2 p"
    by blast
  have a: "a @ ''.'' \<in> lang ?X" using ds(1) unfolding lang_octet_dot by blast
  have b: "b @ ''.'' \<in> lang ?X" using ds(2) unfolding lang_octet_dot by blast
  have c: "c @ ''.'' \<in> lang ?X" using ds(3) unfolding lang_octet_dot by blast
  have d: "d \<in> lang (ROneToThree (RChar Digit))" using ds(4) by (simp only: lang_digits13)
  have p: "CHR ''/'' # p \<in> lang ?S"
    using ds(5) unfolding lang_slash_prefix by blast
  have "((a @ ''.'') @ (b @ ''.'') @ (c @ ''.'')) @ (d @ CHR ''/'' # p) \<in> lang cidrRegex"
    unfolding cidrRegex_def RThrice_def
    by (intro lang_RSeqI a b c d p)
  then show ?L using w by simp
qed

subsection \<open>CIDR texts\<close>

lemma split_without: "c \<notin> set u \<Longrightarrow> split u c = [u]"
  by (induction u) auto

lemma split_at_first: "c \<notin> set u \<Longrightarrow> split (u @ c # v) c = u # split v c"
  by (induction u) auto

lemma digits_no_dot:
  assumes "digits lo hi w"
  shows "CHR ''.'' \<notin> set w"
proof
  assume "CHR ''.'' \<in> set w"
  with assms have "isDigit CHR ''.''"
    by (simp add: digits_def list_all_iff)
  then show False by (simp add: isDigit_def)
qed

lemma digits_no_slash:
  assumes "digits lo hi w"
  shows "CHR ''/'' \<notin> set w"
proof
  assume "CHR ''/'' \<in> set w"
  with assms have "isDigit CHR ''/''"
    by (simp add: digits_def list_all_iff)
  then show False by (simp add: isDigit_def)
qed

lemma split_address:
  assumes "digits 1 3 a" "digits 1 3 b" "digits 1 3 c" "digits 1 3 d"
  shows "split (a @ ''.'' @ b @ ''.'' @ c @ ''.'' @ d) CHR ''.'' = [a, b, c, d]"
proof -
  have n: "CHR ''.'' \<notin> set a" "CHR ''.'' \<notin> set b" "CHR ''.'' \<notin> set c" "CHR ''.'' \<notin> set d"
    using assms by (blast dest: digits_no_dot)+
  have "split (c @ CHR ''.'' # d) CHR ''.'' = [c, d]"
    using split_at_first [OF n(3), of d] split_without [OF n(4)] by simp
  then have "split (b @ CHR ''.'' # c @ CHR ''.'' # d) CHR ''.'' = [b, c, d]"
    using split_at_first [OF n(2), of "c @ CHR ''.'' # d"] by simp
  then have "split (a @ CHR ''.'' # b @ CHR ''.'' # c @ CHR ''.'' # d) CHR ''.'' = [a, b, c, d]"
    using split_at_first [OF n(1), of "b @ CHR ''.'' # c @ CHR ''.'' # d"] by simp
  then show ?thesis by simp
qed

lemma split_cidr:
  assumes "digits 1 3 a" "digits 1 3 b" "digits 1 3 c" "digits 1 3 d" "digits 1 2 p"
  shows "split (a @ ''.'' @ b @ ''.'' @ c @ ''.'' @ d @ ''/'' @ p) CHR ''/'' =
           [a @ ''.'' @ b @ ''.'' @ c @ ''.'' @ d, p]"
proof -
  have n: "CHR ''/'' \<notin> set a" "CHR ''/'' \<notin> set b" "CHR ''/'' \<notin> set c" "CHR ''/'' \<notin> set d"
      "CHR ''/'' \<notin> set p"
    using assms by (blast dest: digits_no_slash)+
  have "CHR ''/'' \<notin> set (a @ ''.'' @ b @ ''.'' @ c @ ''.'' @ d)"
    using n by simp
  then have "split ((a @ ''.'' @ b @ ''.'' @ c @ ''.'' @ d) @ CHR ''/'' # p) CHR ''/'' =
               (a @ ''.'' @ b @ ''.'' @ c @ ''.'' @ d) # split p CHR ''/''"
    by (rule split_at_first)
  moreover have "split p CHR ''/'' = [p]"
    using n(5) by (rule split_without)
  ultimately show ?thesis by simp
qed

lemma parseInt10_digits:
  assumes "digits 1 hi p"
  shows "parseInt10 (Some p) = Some (decimal p)"
proof -
  have tw: "takeWhile isDigit p = p"
    using assms by (simp add: digits_def list_all_iff)
  have ne: "p \<noteq> []"
    using assms by (auto simp: digits_def)
  show ?thesis
    unfolding parseInt10_def Let_def option.case tw using ne by simp
qed

lemma Number_digits: "digits lo hi w \<Longrightarrow> Number w = Some (decimal w)"
  by (simp add: Number_def digits_def)

lemma validateCidrBlock_parts:
  assumes "test cidrRegex w" and "split w CHR ''/'' = [ip, p]" and "split ip CHR ''.'' = os"
  shows "validateCidrBlock w \<longleftrightarrow>
           \<not> (case parseInt10 (Some p) of None \<Rightarrow> False | Some n \<Rightarrow> n < 8 \<or> n > 28) \<and>
           list_all (\<lambda>octet. case octet of None \<Rightarrow> False | Some n \<Rightarrow> n \<le> 255) (map Number os)"
  using assms by (simp add: validateCidrBlock_def Let_def)

lemma validateCidrBlock_text:
  assumes "digits 1 3 a" "digits 1 3 b" "digits 1 3 c" "digits 1 3 d" "digits 1 2 p"
  shows "validateCidrBlock (a @ ''.'' @ b @ ''.'' @ c @ ''.'' @ d @ ''/'' @ p) \<longleftrightarrow>
           8 \<le> decimal p \<and> decimal p \<le> 28 \<and>
           decimal a \<le> 255 \<and> decimal b \<le> 255 \<and> decimal c \<le> 255 \<and> decimal d \<le> 255"
proof -
  let ?w = "a @ ''.'' @ b @ ''.'' @ c @ ''.'' @ d @ ''/'' @ p"
  have t: "test cidrRegex ?w"
    unfolding test_lang cidrRegex_lang using assms by blast
  have s: "split ?w CHR ''/'' = [a @ ''.'' @ b @ ''.'' @ c @ ''.'' @ d, p]"
    using assms by (rule split_cidr)
  have q: "split (a @ ''.'' @ b @ ''.'' @ c @ ''.'' @ d) CHR ''.'' = [a, b, c, d]"
    using assms(1-4) by (rule split_address)
  have n: "parseInt10 (Some p) = Some (decimal p)"
    using assms(5) by (rule parseInt10_digits)
  have os: "map Number [a, b, c, d] =
              [Some (decimal a), Some (decimal b), Some (decimal c), Some (decimal d)]"
    using assms(1-4) by (simp add: Number_digits)
  show ?thesis
    unfolding validateCidrBlock_parts [OF t s q] n os
    by (simp add: not_less)
qed

subsection \<open>The validation methods\<close>

lemma forEach_ok_iff: "forEach xs f = Inr () \<longleftrightarrow> (\<forall>x\<in>set xs. f x = Inr ())"
  by (induction xs) (auto split: sum.splits)

lemma forEach_error_from: "forEach xs f = Inl e \<Longrightarrow> \<exists>x\<in>set xs. f x = Inl e"
  by (induction xs) (auto split: sum.splits)

lemma forEach_error_not_ok: "forEach xs f = Inl e \<Longrightarrow> \<not> (\<forall>x\<in>set xs. f x = Inr ())"
  using forEach_ok_iff [of xs f] by simp

lemma forEach_first_error:
  "(\<forall>x\<in>set pre. f x = Inr ()) \<Longrightarrow> f x = Inl e \<Longrightarrow> forEach (pre @ x # post) f = Inl e"
  by (induction pre) auto

lemma primaryRegionExists_found:
  "primaryRegionExists envs p = Inr True \<Longrightarrow>
     \<exists>env\<in>set envs. \<exists>rs. regions env = Some rs \<and> (\<exists>r\<in>set rs. regionName r = p)"
  by (induction envs) (auto split: option.splits if_splits simp: list_ex_iff)

lemma primaryRegionExists_absent:
  "(\<forall>env\<in>set envs. \<forall>rs. regions env = Some rs \<longrightarrow> (\<forall>r\<in>set rs. regionName r \<noteq> p)) \<Longrightarrow>
     primaryRegionExists envs p \<noteq> Inr True"
  using primaryRegionExists_found by blast

lemma primaryRegionExists_absent_present:
  "(\<forall>env\<in>set envs. \<exists>rs. regions env = Some rs \<and> (\<forall>r\<in>set rs. regionName r \<noteq> p)) \<Longrightarrow>
     primaryRegionExists envs p = Inr False"
  by (induction envs) (auto simp: list_ex_iff)

lemma length_remdups_distinct: "length xs = length (remdups xs) \<longleftrightarrow> distinct xs"
  by (metis length_remdups_eq remdups_id_iff_distinct)

lemma validateCidrBlocks_ok_iff:
  "validateCidrBlocks rs = Inr () \<longleftrightarrow>
     distinct (map cidrBlock rs) \<and> (\<forall>r\<in>set rs. test cidrRegex (cidrBlock r))"
  using length_remdups_distinct [of "map cidrBlock rs"]
  by (auto simp: validateCidrBlocks_def Let_def forEach_ok_iff)

lemma validateCidrBlocks_duplicate:
  "\<not> distinct (map cidrBlock rs) \<longleftrightarrow> validateCidrBlocks rs = Inl OverlappingCidrBlocks"
  using length_remdups_distinct [of "map cidrBlock rs"]
  by (auto simp: validateCidrBlocks_def Let_def dest!: forEach_error_from split: if_splits)

lemma validateRegionConfiguration_ok:
  assumes "validateRegionConfiguration rc = Inr ()"
  shows "test regionRegex (regionName rc)"
    and "2 \<le> length (availabilityZones rc)"
    and "\<forall>az\<in>set (availabilityZones rc). startsWith az (regionName rc)"
  using assms
  by (auto simp: validateRegionConfiguration_def forEach_ok_iff split: if_splits sum.splits)

lemma validateEnvironmentConfiguration_ok_iff:
  "validateEnvironmentConfiguration this k = Inr () \<longleftrightarrow>
     (\<exists>envConfig rs.
        map_of (environments (deploymentConfig this)) k = Some envConfig \<and>
        regions envConfig = Some rs \<and> rs \<noteq> [] \<and>
        validateCidrBlocks rs = Inr () \<and>
        (\<forall>r\<in>set rs. validateRegionConfiguration r = Inr ()) \<and>
        (\<forall>r. find (\<lambda>r. regionName r = primaryRegion (crossRegionSettings (deploymentConfig this))) rs = Some r
             \<longrightarrow> deployPayment r))"
  by (auto simp: validateEnvironmentConfiguration_def Let_def forEach_ok_iff
           split: option.splits sum.splits if_splits dest!: forEach_error_not_ok)

lemma validateConfiguration_ok_iff:
  "validateConfiguration this = Inr () \<longleftrightarrow>
     validateEnvironments this = Inr () \<and>
     validateCrossRegionSettings this = Inr () \<and>
     (\<forall>k\<in>set (Object_keys (environments (deploymentConfig this))).
        validateEnvironmentConfiguration this k = Inr ())"
  by (auto simp: validateConfiguration_def forEach_ok_iff split: sum.splits)

subsection \<open>Region names and networks\<close>

lemma inClass_Lower: "inClass Lower = isLower"
  by (rule ext) simp

lemma inClass_Digit: "inClass Digit = isDigit"
  by (rule ext) simp

lemma regionRegex_lang: "test regionRegex w \<longleftrightarrow> regionNameText w"
proof
  let ?D = "RChar (Lit CHR ''-'')"
  assume "test regionRegex w"
  then have "w \<in> lang regionRegex" by (simp only: test_lang)
  then obtain a w1 where
    1: "w = a @ w1" "a \<in> lang (RTwice (RChar Lower))" and
    r1: "w1 \<in> lang (RSeq ?D (RSeq (RPlus (RChar Lower)) (RSeq ?D (RPlus (RChar Digit)))))"
    unfolding regionRegex_def by (rule lang_RSeqE)
  from r1 obtain d1 w2 where
    2: "w1 = d1 @ w2" "d1 \<in> lang ?D" and
    r2: "w2 \<in> lang (RSeq (RPlus (RChar Lower)) (RSeq ?D (RPlus (RChar Digit))))"
    by (rule lang_RSeqE)
  from r2 obtain b w3 where
    3: "w2 = b @ w3" "b \<in> lang (RPlus (RChar Lower))" and
    r3: "w3 \<in> lang (RSeq ?D (RPlus (RChar Digit)))"
    by (rule lang_RSeqE)
  from r3 obtain d2 n where
    4: "w3 = d2 @ n" "d2 \<in> lang ?D" "n \<in> lang (RPlus (RChar Digit))"
    by (rule lang_RSeqE)
  have "d1 = ''-''" "d2 = ''-''"
    using 2(2) 4(2) by (simp_all only: lang_Lit_iff)
  then have "w = a @ ''-'' @ b @ ''-'' @ n"
    using 1(1) 2(1) 3(1) 4(1) by simp
  moreover have "length a = 2 \<and> list_all isLower a"
    using 1(2) unfolding lang_RTwice_RChar inClass_Lower .
  moreover have "b \<noteq> [] \<and> list_all isLower b"
    using 3(2) unfolding lang_RPlus_RChar inClass_Lower .
  moreover have "n \<noteq> [] \<and> list_all isDigit n"
    using 4(3) unfolding lang_RPlus_RChar inClass_Digit .
  ultimately show "regionNameText w"
    unfolding regionNameText_def by blast
next
  let ?D = "RChar (Lit CHR ''-'')"
  assume "regionNameText w"
  then obtain a b n where
    w: "w = a @ ''-'' @ b @ ''-'' @ n" and
    a: "length a = 2 \<and> list_all isLower a" and
    b: "b \<noteq> [] \<and> list_all isLower b" and
    n: "n \<noteq> [] \<and> list_all isDigit n"
    unfolding regionNameText_def by blast
  have a': "a \<in> lang (RTwice (RChar Lower))"
    using a unfolding lang_RTwice_RChar inClass_Lower .
  have b': "b \<in> lang (RPlus (RChar Lower))"
    using b unfolding lang_RPlus_RChar inClass_Lower .
  have n': "n \<in> lang (RPlus (RChar Digit))"
    using n unfolding lang_RPlus_RChar inClass_Digit .
  have d: "''-'' \<in> lang ?D"
    by (simp only: lang_Lit_iff)
  have "a @ ''-'' @ b @ ''-'' @ n \<in> lang regionRegex"
    unfolding regionRegex_def by (intro lang_RSeqI a' b' n' d)
  then show "test regionRegex w"
    using w by (simp only: test_lang)
qed

lemma same_before_separator:
  assumes "c \<notin> set u" and "c \<notin> set u'"
  shows "u @ c # v = u' @ c # v' \<longleftrightarrow> u = u' \<and> v = v'"
  using assms
proof (induction u arbitrary: u')
  case Nil
  then show ?case by (cases u') auto
next
  case (Cons x u)
  then show ?case by (cases u') auto
qed

lemma network_text:
  assumes "digits 1 3 a" "digits 1 3 b" "digits 1 3 c" "digits 1 3 d" "digits 1 2 p"
  shows "join (slice0 (split (case split (a @ ''.'' @ b @ ''.'' @ c @ ''.'' @ d @ ''/'' @ p) CHR ''/'' of
                                [] \<Rightarrow> [] | x # _ \<Rightarrow> x) CHR ''.'') 2) CHR ''.'' =
           a @ ''.'' @ b"
  unfolding slice0_def split_cidr [OF assms] list.case split_address [OF assms(1-4)]
  by simp

lemma cidrBlocksOverlap_text:
  assumes "digits 1 3 a" "digits 1 3 b" "digits 1 3 c" "digits 1 3 d" "digits 1 2 p"
    and "digits 1 3 a'" "digits 1 3 b'" "digits 1 3 c'" "digits 1 3 d'" "digits 1 2 p'"
  shows "cidrBlocksOverlap (a @ ''.'' @ b @ ''.'' @ c @ ''.'' @ d @ ''/'' @ p)
           (a' @ ''.'' @ b' @ ''.'' @ c' @ ''.'' @ d' @ ''/'' @ p') \<longleftrightarrow>
         a @ ''.'' @ b @ ''.'' @ c @ ''.'' @ d @ ''/'' @ p =
           a' @ ''.'' @ b' @ ''.'' @ c' @ ''.'' @ d' @ ''/'' @ p' \<or>
         (a = a' \<and> b = b')"
proof -
  have "a @ ''.'' @ b = a' @ ''.'' @ b' \<longleftrightarrow> a = a' \<and> b = b'"
    using same_before_separator [OF digits_no_dot [OF assms(1)] digits_no_dot [OF assms(6)], of b b']
    by simp
  then show ?thesis
    unfolding cidrBlocksOverlap_def Let_def network_text [OF assms(1-5)] network_text [OF assms(6-10)]
    by auto
qed

subsection \<open>The constructor\<close>

lemma newConfigurationManager_defaults:
  "newConfigurationManager env cfg =
     newConfigurationManager
       (Some (case env of None \<Rightarrow> ''development'' | Some e \<Rightarrow> e))
       (Some (case cfg of None \<Rightarrow> DEFAULT_DEPLOYMENT_CONFIG | Some c \<Rightarrow> c))"
  by (simp add: newConfigurationManager_def)

lemma newConfigurationManager_result:
  "newConfigurationManager (Some cur) (Some cfg) =
     (case validateConfiguration \<lparr>deploymentConfig = cfg, currentEnvironment = cur\<rparr> of
        Inl e \<Rightarrow> Inl e
      | Inr u \<Rightarrow> Inr \<lparr>deploymentConfig = cfg, currentEnvironment = cur\<rparr>)"
  by (simp add: newConfigurationManager_def Let_def)

lemma newConfigurationManager_accepted:
  assumes "newConfigurationManager (Some cur) (Some cfg) = Inr this"
  shows "this = \<lparr>deploymentConfig = cfg, currentEnvironment = cur\<rparr>"
    and "validateConfiguration this = Inr ()"
  using assms by (auto simp: newConfigurationManager_result split: sum.splits)

lemma newConfigurationManager_rejected:
  assumes "validateConfiguration \<lparr>deploymentConfig = cfg, currentEnvironment = cur\<rparr> = Inl e"
  shows "newConfigurationManager (Some cur) (Some cfg) = Inl e"
  using assms by (simp add: newConfigurationManager_result)

lemma not_ok_is_error: "(r :: ConfigurationError + unit) \<noteq> Inr () \<Longrightarrow> \<exists>e. r = Inl e"
  by (cases r) auto

lemma accepted_environment:
  assumes "newConfigurationManager (Some cur) (Some cfg) = Inr this"
    and "map_of (environments cfg) k = Some e"
  shows "validateEnvironmentConfiguration this k = Inr ()"
proof -
  have t: "this = \<lparr>deploymentConfig = cfg, currentEnvironment = cur\<rparr>"
    and v: "validateConfiguration this = Inr ()"
    using assms(1) by (rule newConfigurationManager_accepted)+
  have "k \<in> set (Object_keys (environments (deploymentConfig this)))"
    using assms(2) t by (auto simp: Object_keys_def dest: map_of_SomeD intro: rev_image_eqI)
  with v show ?thesis
    unfolding validateConfiguration_ok_iff by blast
qed

lemma accepted_regions:
  assumes "newConfigurationManager (Some cur) (Some cfg) = Inr this"
    and "map_of (environments cfg) k = Some e"
  obtains rs where "regions e = Some rs" "rs \<noteq> []" "validateCidrBlocks rs = Inr ()"
    "\<forall>r\<in>set rs. validateRegionConfiguration r = Inr ()"
    "\<forall>r. find (\<lambda>r. regionName r = primaryRegion (crossRegionSettings cfg)) rs = Some r
        \<longrightarrow> deployPayment r"
proof -
  have t: "this = \<lparr>deploymentConfig = cfg, currentEnvironment = cur\<rparr>"
    using assms(1) by (rule newConfigurationManager_accepted)
  have "validateEnvironmentConfiguration this k = Inr ()"
    using assms by (rule accepted_environment)
  then show ?thesis
    unfolding validateEnvironmentConfiguration_ok_iff using assms(2) t that by auto
qed

lemma failing_environment_rejects:
  assumes "map_of (environments cfg) k = Some e"
    and "validateEnvironmentConfiguration \<lparr>deploymentConfig = cfg, currentEnvironment = cur\<rparr> k
           \<noteq> Inr ()"
  shows "\<exists>err. newConfigurationManager (Some cur) (Some cfg) = Inl err"
proof (cases "newConfigurationManager (Some cur) (Some cfg)")
  case (Inl err)
  then show ?thesis by blast
next
  case (Inr this)
  then have "validateEnvironmentConfiguration this k = Inr ()"
    using assms(1) by (rule accepted_environment)
  moreover have "this = \<lparr>deploymentConfig = cfg, currentEnvironment = cur\<rparr>"
    using Inr by (rule newConfigurationManager_accepted)
  ultimately show ?thesis using assms(2) by simp
qed

lemma first_failing_environment:
  assumes "validateEnvironments this = Inr ()"
    and "validateCrossRegionSettings this = Inr ()"
    and "environments (deploymentConfig this) = pre @ (k, e) # post"
    and "\<forall>k'\<in>set (Object_keys pre). validateEnvironmentConfiguration this k' = Inr ()"
    and "validateEnvironmentConfiguration this k = Inl err"
  shows "validateConfiguration this = Inl err"
proof -
  have "Object_keys (environments (deploymentConfig this)) = Object_keys pre @ k # Object_keys post"
    using assms(3) by (simp add: Object_keys_def)
  then have "forEach (Object_keys (environments (deploymentConfig this)))
      (validateEnvironmentConfiguration this) = Inl err"
    using forEach_first_error [OF assms(4) assms(5)] by simp
  then show ?thesis
    using assms(1,2) by (simp add: validateConfiguration_def)
qed

lemma lookup_after_prefix:
  "k \<notin> set (Object_keys pre) \<Longrightarrow> map_of (pre @ (k, e) # post) k = Some e"
  by (induction pre) (auto simp: Object_keys_def)

lemma validateEnvironments_ok_iff:
  "validateEnvironments this = Inr () \<longleftrightarrow>
     environments (deploymentConfig this) \<noteq> [] \<and>
     map_of (environments (deploymentConfig this)) (currentEnvironment this) \<noteq> None"
  by (auto simp: validateEnvironments_def Object_keys_def)

lemma validateCrossRegionSettings_ok:
  assumes "validateCrossRegionSettings this = Inr ()"
  shows "primaryRegionExists (Object_values (environments (deploymentConfig this)))
           (primaryRegion (crossRegionSettings (deploymentConfig this))) = Inr True"
  using assms
  by (auto simp: validateCrossRegionSettings_def Let_def split: if_splits sum.splits)

lemma validateCrossRegionSettings_not_found:
  assumes "primaryRegion (crossRegionSettings (deploymentConfig this)) \<noteq> []"
    and "paymentApiEndpoint (crossRegionSettings (deploymentConfig this)) \<noteq> []"
    and "primaryRegionExists (Object_values (environments (deploymentConfig this)))
           (primaryRegion (crossRegionSettings (deploymentConfig this))) = Inr False"
  shows "validateCrossRegionSettings this =
           Inl (PrimaryRegionNotFound (primaryRegion (crossRegionSettings (deploymentConfig this))))"
  using assms by (simp add: validateCrossRegionSettings_def Let_def)

lemma validateEnvironmentConfiguration_payment:
  assumes "map_of (environments (deploymentConfig m)) k = Some e"
    and "regions e = Some rs"
    and "validateCidrBlocks rs = Inr ()"
    and "\<forall>r\<in>set rs. validateRegionConfiguration r = Inr ()"
    and "find (\<lambda>r. regionName r = primaryRegion (crossRegionSettings (deploymentConfig m))) rs = Some r"
    and "\<not> deployPayment r"
  shows "validateEnvironmentConfiguration m k =
           Inl (PrimaryRegionPaymentDisabled (primaryRegion (crossRegionSettings (deploymentConfig m))))"
proof -
  have "rs \<noteq> []" using assms(5) by auto
  moreover have "forEach rs validateRegionConfiguration = Inr ()"
    using assms(4) by (simp add: forEach_ok_iff)
  ultimately show ?thesis
    using assms by (simp add: validateEnvironmentConfiguration_def Let_def)
qed

lemma validateEnvironmentConfiguration_no_regions:
  assumes "map_of (environments (deploymentConfig m)) k = Some e"
    and "regions e = None \<or> regions e = Some []"
  shows "validateEnvironmentConfiguration m k = Inl (NoRegionsConfigured k)"
  using assms by (auto simp: validateEnvironmentConfiguration_def)

lemma startsWith_iff: "startsWith s p \<longleftrightarrow> (\<exists>t. s = p @ t)"
  by (induction s p rule: startsWith.induct) auto

lemma validateEnvironmentConfiguration_duplicate:
  assumes "map_of (environments (deploymentConfig m)) k = Some e"
    and "regions e = Some rs"
    and "\<not> distinct (map cidrBlock rs)"
  shows "validateEnvironmentConfiguration m k = Inl OverlappingCidrBlocks"
proof -
  have "rs \<noteq> []" using assms(3) by auto
  moreover have "validateCidrBlocks rs = Inl OverlappingCidrBlocks"
    using assms(3) by (simp only: validateCidrBlocks_duplicate)
  ultimately show ?thesis
    using assms(1,2) by (simp add: validateEnvironmentConfiguration_def)
qed

lemma validateRegionConfiguration_few_zones:
  assumes "test regionRegex (regionName r)" and "length (availabilityZones r) < 2"
  shows "validateRegionConfiguration r = Inl (TooFewAvailabilityZones (regionName r))"
  using assms by (simp add: validateRegionConfiguration_def)

lemma validateRegionConfiguration_zone_mismatch:
  assumes "test regionRegex (regionName r)" and "2 \<le> length (availabilityZones r)"
    and "availabilityZones r = before @ az # rest"
    and "\<forall>a\<in>set before. startsWith a (regionName r)"
    and "\<not> startsWith az (regionName r)"
  shows "validateRegionConfiguration r = Inl (AvailabilityZoneMismatch az (regionName r))"
proof -
  let ?f = "\<lambda>az. if \<not> startsWith az (regionName r)
                  then Inl (AvailabilityZoneMismatch az (regionName r)) else Inr ()"
  have "forEach (before @ az # rest) ?f = Inl (AvailabilityZoneMismatch az (regionName r))"
    using assms(4,5) by (intro forEach_first_error) simp_all
  then have "forEach (availabilityZones r) ?f = Inl (AvailabilityZoneMismatch az (regionName r))"
    using assms(3) by simp
  then show ?thesis
    using assms(1,2) by (simp add: validateRegionConfiguration_def)
qed

section \<open>Claims\<close>

subsection \<open>Resolution of a bundle\<close>

text \<open>
  In the statements below the manager is constructed with both arguments given,
  \<open>newConfigurationManager (Some cur) (Some cfg)\<close>; by \<open>newConfigurationManager_defaults\<close> an
  omitted argument is the same as passing its default. A declared environment is a key \<open>k\<close>
  of \<^verbatim>\<open>environments\<close> with its value \<open>e\<close>, \<open>map_of (environments cfg) k = Some e\<close>. Where a
  statement names the error, it does so for the first check that fails: the two checks on
  the bundle pass, and so does every environment enumerated before \<open>k\<close>.
\<close>

text \<open>
  C1, as amended. Membership of the primary region is enforced on the bundle as a whole, not
  on each environment. If no declared environment has a region named
  \<^verbatim>\<open>crossRegionSettings.primaryRegion\<close>, the construction fails and returns no manager; the
  error is \<open>PrimaryRegionNotFound\<close> with the primary region's name when there is an
  environment, the current one is declared, the primary region and the payment endpoint are
  not empty and every environment has a \<^verbatim>\<open>regions\<close> list. A bundle is accepted only if the
  primary region is a region name of at least one declared environment.
\<close>

theorem primary_region_in_some_environment:
  "((\<forall>e\<in>set (Object_values (environments cfg)). \<forall>rs. regions e = Some rs \<longrightarrow>
        (\<forall>r\<in>set rs. regionName r \<noteq> primaryRegion (crossRegionSettings cfg))) \<longrightarrow>
      (\<exists>err. newConfigurationManager (Some cur) (Some cfg) = Inl err)) \<and>
   (environments cfg \<noteq> [] \<and> map_of (environments cfg) cur \<noteq> None \<and>
    primaryRegion (crossRegionSettings cfg) \<noteq> [] \<and>
    paymentApiEndpoint (crossRegionSettings cfg) \<noteq> [] \<and>
    (\<forall>e\<in>set (Object_values (environments cfg)). \<exists>rs. regions e = Some rs \<and>
        (\<forall>r\<in>set rs. regionName r \<noteq> primaryRegion (crossRegionSettings cfg))) \<longrightarrow>
      newConfigurationManager (Some cur) (Some cfg) =
        Inl (PrimaryRegionNotFound (primaryRegion (crossRegionSettings cfg)))) \<and>
   (newConfigurationManager (Some cur) (Some cfg) = Inr mgr \<longrightarrow>
      (\<exists>e\<in>set (Object_values (environments cfg)). \<exists>rs. regions e = Some rs \<and>
         (\<exists>r\<in>set rs. regionName r = primaryRegion (crossRegionSettings cfg))))"
proof (intro conjI impI)
  let ?m = "\<lparr>deploymentConfig = cfg, currentEnvironment = cur\<rparr>"
  assume absent: "\<forall>e\<in>set (Object_values (environments cfg)). \<forall>rs. regions e = Some rs \<longrightarrow>
        (\<forall>r\<in>set rs. regionName r \<noteq> primaryRegion (crossRegionSettings cfg))"
  then have "primaryRegionExists (Object_values (environments cfg))
      (primaryRegion (crossRegionSettings cfg)) \<noteq> Inr True"
    by (rule primaryRegionExists_absent)
  then have "validateCrossRegionSettings ?m \<noteq> Inr ()"
    using validateCrossRegionSettings_ok [of ?m] by auto
  then have "validateConfiguration ?m \<noteq> Inr ()"
    unfolding validateConfiguration_ok_iff by simp
  then obtain err where "validateConfiguration ?m = Inl err"
    by (blast dest: not_ok_is_error)
  then show "\<exists>err. newConfigurationManager (Some cur) (Some cfg) = Inl err"
    by (blast dest: newConfigurationManager_rejected)
next
  let ?m = "\<lparr>deploymentConfig = cfg, currentEnvironment = cur\<rparr>"
  assume a: "environments cfg \<noteq> [] \<and> map_of (environments cfg) cur \<noteq> None \<and>
    primaryRegion (crossRegionSettings cfg) \<noteq> [] \<and>
    paymentApiEndpoint (crossRegionSettings cfg) \<noteq> [] \<and>
    (\<forall>e\<in>set (Object_values (environments cfg)). \<exists>rs. regions e = Some rs \<and>
        (\<forall>r\<in>set rs. regionName r \<noteq> primaryRegion (crossRegionSettings cfg)))"
  then have "primaryRegionExists (Object_values (environments cfg))
      (primaryRegion (crossRegionSettings cfg)) = Inr False"
    by (intro primaryRegionExists_absent_present) blast
  then have "validateCrossRegionSettings ?m =
      Inl (PrimaryRegionNotFound (primaryRegion (crossRegionSettings cfg)))"
    using a validateCrossRegionSettings_not_found [of ?m] by simp
  moreover have "validateEnvironments ?m = Inr ()"
    using a by (simp add: validateEnvironments_ok_iff)
  ultimately have "validateConfiguration ?m =
      Inl (PrimaryRegionNotFound (primaryRegion (crossRegionSettings cfg)))"
    by (simp add: validateConfiguration_def)
  then show "newConfigurationManager (Some cur) (Some cfg) =
        Inl (PrimaryRegionNotFound (primaryRegion (crossRegionSettings cfg)))"
    by (rule newConfigurationManager_rejected)
next
  assume acc: "newConfigurationManager (Some cur) (Some cfg) = Inr mgr"
  then have t: "mgr = \<lparr>deploymentConfig = cfg, currentEnvironment = cur\<rparr>"
    and v: "validateConfiguration mgr = Inr ()"
    by (rule newConfigurationManager_accepted)+
  from v have "validateCrossRegionSettings mgr = Inr ()"
    unfolding validateConfiguration_ok_iff by blast
  then have "primaryRegionExists (Object_values (environments cfg))
      (primaryRegion (crossRegionSettings cfg)) = Inr True"
    using validateCrossRegionSettings_ok [of mgr] t by simp
  then show "\<exists>e\<in>set (Object_values (environments cfg)). \<exists>rs. regions e = Some rs \<and>
         (\<exists>r\<in>set rs. regionName r = primaryRegion (crossRegionSettings cfg))"
    by (rule primaryRegionExists_found)
qed

text \<open>
  The claim as first stated asks for the primary region in every declared environment. The
  bundle \<^const>\<open>twoEnvironments\<close> is accepted although its environment \<^verbatim>\<open>europe\<close> has no region
  named \<^verbatim>\<open>us-east-1\<close>.
\<close>

theorem primary_region_absent_from_an_environment:
  "map_of (environments twoEnvironments) ''europe'' = Some (testEnvironment (Some [euCentral1])) \<and>
   regions (testEnvironment (Some [euCentral1])) = Some [euCentral1] \<and>
   regionName euCentral1 \<noteq> primaryRegion (crossRegionSettings twoEnvironments) \<and>
   newConfigurationManager (Some ''development'') (Some twoEnvironments) =
     Inr \<lparr>deploymentConfig = twoEnvironments, currentEnvironment = ''development''\<rparr>"
  by code_simp

theorem primary_region_in_some_environment_examples:
  "newConfigurationManager (Some ''test'') (Some europeOnly) = Inl (PrimaryRegionNotFound ''us-east-1'') \<and>
   list_ex (\<lambda>e. case regions e of None \<Rightarrow> False
                   | Some rs \<Rightarrow> list_ex (\<lambda>r. regionName r = ''us-east-1'') rs)
     (Object_values (environments DEFAULT_DEPLOYMENT_CONFIG))"
proof -
  have h: "environments europeOnly \<noteq> [] \<and> map_of (environments europeOnly) ''test'' \<noteq> None \<and>
    primaryRegion (crossRegionSettings europeOnly) \<noteq> [] \<and>
    paymentApiEndpoint (crossRegionSettings europeOnly) \<noteq> [] \<and>
    (\<forall>e\<in>set (Object_values (environments europeOnly)). \<exists>rs. regions e = Some rs \<and>
        (\<forall>r\<in>set rs. regionName r \<noteq> primaryRegion (crossRegionSettings europeOnly)))"
    by (simp add: europeOnly_def testConfig_def testEnvironment_def Object_values_def euCentral1_def)
  have p: "primaryRegion (crossRegionSettings europeOnly) = ''us-east-1''"
    by (simp add: europeOnly_def testConfig_def)
  have 1: "newConfigurationManager (Some ''test'') (Some europeOnly) = Inl (PrimaryRegionNotFound ''us-east-1'')"
    using primary_region_in_some_environment [of europeOnly "''test''"] h p by simp
  have acc: "newConfigurationManager (Some ''development'') (Some DEFAULT_DEPLOYMENT_CONFIG) = Inr defaultManager"
    by code_simp
  have p': "primaryRegion (crossRegionSettings DEFAULT_DEPLOYMENT_CONFIG) = ''us-east-1''"
    by (simp add: DEFAULT_DEPLOYMENT_CONFIG_def)
  have 2: "list_ex (\<lambda>e. case regions e of None \<Rightarrow> False
                   | Some rs \<Rightarrow> list_ex (\<lambda>r. regionName r = ''us-east-1'') rs)
     (Object_values (environments DEFAULT_DEPLOYMENT_CONFIG))"
    using primary_region_in_some_environment [of DEFAULT_DEPLOYMENT_CONFIG "''development''" defaultManager] acc
    unfolding p' list_ex_iff by fastforce
  from 1 2 show ?thesis by simp
qed

text \<open>
  C2. Resolution is to reject an environment with two regions whose \<^verbatim>\<open>cidrBlock\<close> values are
  identical or share their first two octets. The code does so for identical strings only.
  In the bundle \<^const>\<open>networkEqualBlocks\<close> the environment \<^verbatim>\<open>test\<close> has the regions
  \<^verbatim>\<open>us-east-1\<close> with \<^verbatim>\<open>10.1.0.0/16\<close> and \<^verbatim>\<open>eu-central-1\<close> with \<^verbatim>\<open>10.1.5.0/24\<close>:
  \<^const>\<open>cidrBlocksOverlap\<close> holds of the two blocks, and yet the constructor returns the
  manager. \<^verbatim>\<open>validateCidrBlocks\<close>, documented as validating that the blocks of an environment
  do not overlap, compares the number of blocks with the number of distinct strings and
  never asks \<^const>\<open>cidrBlocksOverlap\<close>.
\<close>

theorem network_equal_blocks_accepted:
  "cidrBlocksOverlap ''10.1.0.0/16'' ''10.1.5.0/24'' \<and>
   map cidrBlock [usEast1, euCentral1\<lparr>cidrBlock := ''10.1.5.0/24''\<rparr>] = [''10.1.0.0/16'', ''10.1.5.0/24''] \<and>
   newConfigurationManager (Some ''test'') (Some networkEqualBlocks) =
     Inr \<lparr>deploymentConfig = networkEqualBlocks, currentEnvironment = ''test''\<rparr>"
proof -
  have "cidrBlocksOverlap ''10.1.0.0/16'' ''10.1.5.0/24''"
    by code_simp
  moreover have "newConfigurationManager (Some ''test'') (Some networkEqualBlocks) =
     Inr \<lparr>deploymentConfig = networkEqualBlocks, currentEnvironment = ''test''\<rparr>"
    by code_simp
  ultimately show ?thesis
    by (simp add: usEast1_def euCentral1_def)
qed

text \<open>
  What \<^verbatim>\<open>validateCidrBlocks\<close> does enforce: an environment in which two regions have the
  same \<^verbatim>\<open>cidrBlock\<close> string makes the construction fail, with \<open>OverlappingCidrBlocks\<close> when
  it is the first check that fails, and in an accepted bundle the \<^verbatim>\<open>cidrBlock\<close> strings of
  the regions of one environment are pairwise distinct.
\<close>

lemma identical_cidr_blocks_rejected:
  "(map_of (environments cfg) k = Some e \<and> regions e = Some rs \<and>
    \<not> distinct (map cidrBlock rs) \<longrightarrow>
      (\<exists>err. newConfigurationManager (Some cur) (Some cfg) = Inl err)) \<and>
   (validateEnvironments \<lparr>deploymentConfig = cfg, currentEnvironment = cur\<rparr> = Inr () \<and>
    validateCrossRegionSettings \<lparr>deploymentConfig = cfg, currentEnvironment = cur\<rparr> = Inr () \<and>
    environments cfg = pre @ (k, e) # post \<and> k \<notin> set (Object_keys pre) \<and>
    (\<forall>k'\<in>set (Object_keys pre).
       validateEnvironmentConfiguration \<lparr>deploymentConfig = cfg, currentEnvironment = cur\<rparr> k' = Inr ()) \<and>
    regions e = Some rs \<and> \<not> distinct (map cidrBlock rs) \<longrightarrow>
      newConfigurationManager (Some cur) (Some cfg) = Inl OverlappingCidrBlocks) \<and>
   (newConfigurationManager (Some cur) (Some cfg) = Inr mgr \<and>
    map_of (environments cfg) k = Some e \<and> regions e = Some rs \<longrightarrow>
      distinct (map cidrBlock rs))"
proof (intro conjI impI)
  let ?m = "\<lparr>deploymentConfig = cfg, currentEnvironment = cur\<rparr>"
  assume a: "map_of (environments cfg) k = Some e \<and> regions e = Some rs \<and>
    \<not> distinct (map cidrBlock rs)"
  then have look: "map_of (environments cfg) k = Some e" and rs: "regions e = Some rs"
    and dup: "\<not> distinct (map cidrBlock rs)"
    by blast+
  have "validateEnvironmentConfiguration ?m k = Inl OverlappingCidrBlocks"
    using validateEnvironmentConfiguration_duplicate [of ?m k e rs] look rs dup by simp
  then have "validateEnvironmentConfiguration ?m k \<noteq> Inr ()"
    by simp
  with look show "\<exists>err. newConfigurationManager (Some cur) (Some cfg) = Inl err"
    by (rule failing_environment_rejects)
next
  let ?m = "\<lparr>deploymentConfig = cfg, currentEnvironment = cur\<rparr>"
  assume a: "validateEnvironments ?m = Inr () \<and>
    validateCrossRegionSettings ?m = Inr () \<and>
    environments cfg = pre @ (k, e) # post \<and> k \<notin> set (Object_keys pre) \<and>
    (\<forall>k'\<in>set (Object_keys pre). validateEnvironmentConfiguration ?m k' = Inr ()) \<and>
    regions e = Some rs \<and> \<not> distinct (map cidrBlock rs)"
  then have ve: "validateEnvironments ?m = Inr ()"
    and vc: "validateCrossRegionSettings ?m = Inr ()"
    and envs: "environments cfg = pre @ (k, e) # post"
    and fresh: "k \<notin> set (Object_keys pre)"
    and before: "\<forall>k'\<in>set (Object_keys pre). validateEnvironmentConfiguration ?m k' = Inr ()"
    and rs: "regions e = Some rs"
    and dup: "\<not> distinct (map cidrBlock rs)"
    by blast+
  have dm: "deploymentConfig ?m = cfg"
    by simp
  have "map_of (pre @ (k, e) # post) k = Some e"
    using fresh by (rule lookup_after_prefix)
  then have look: "map_of (environments cfg) k = Some e"
    unfolding envs .
  have "validateEnvironmentConfiguration ?m k = Inl OverlappingCidrBlocks"
    using validateEnvironmentConfiguration_duplicate [of ?m k e rs, unfolded dm] look rs dup
    by blast
  then have "validateConfiguration ?m = Inl OverlappingCidrBlocks"
    using first_failing_environment [of ?m pre k e post, unfolded dm] ve vc envs before by blast
  then show "newConfigurationManager (Some cur) (Some cfg) = Inl OverlappingCidrBlocks"
    by (rule newConfigurationManager_rejected)
next
  assume a: "newConfigurationManager (Some cur) (Some cfg) = Inr mgr \<and>
    map_of (environments cfg) k = Some e \<and> regions e = Some rs"
  then have acc: "newConfigurationManager (Some cur) (Some cfg) = Inr mgr"
    and look: "map_of (environments cfg) k = Some e" and rs: "regions e = Some rs"
    by blast+
  obtain rs' where "regions e = Some rs'" "rs' \<noteq> []" "validateCidrBlocks rs' = Inr ()"
    "\<forall>r\<in>set rs'. validateRegionConfiguration r = Inr ()"
    "\<forall>r. find (\<lambda>r. regionName r = primaryRegion (crossRegionSettings cfg)) rs' = Some r
        \<longrightarrow> deployPayment r"
    by (rule accepted_regions [OF acc look])
  with rs have "validateCidrBlocks rs = Inr ()" by simp
  then show "distinct (map cidrBlock rs)"
    unfolding validateCidrBlocks_ok_iff by blast
qed

lemma identical_cidr_blocks_rejected_examples:
  "newConfigurationManager (Some ''test'') (Some sameBlocks) = Inl OverlappingCidrBlocks \<and>
   distinct (map cidrBlock [usEast1, euCentral1, apSoutheast2])"
proof -
  let ?rs = "[usEast1, euCentral1\<lparr>cidrBlock := ''10.1.0.0/16''\<rparr>]"
  let ?m = "\<lparr>deploymentConfig = sameBlocks, currentEnvironment = ''test''\<rparr>"
  have ve: "validateEnvironments ?m = Inr ()" by code_simp
  have vc: "validateCrossRegionSettings ?m = Inr ()" by code_simp
  have envs: "environments sameBlocks = [] @ (''test'', testEnvironment (Some ?rs)) # []"
    by (simp add: sameBlocks_def testConfig_def)
  have pre: "''test'' \<notin> set (Object_keys ([] :: (string \<times> EnvironmentConfig) list)) \<and>
    (\<forall>k'\<in>set (Object_keys ([] :: (string \<times> EnvironmentConfig) list)).
       validateEnvironmentConfiguration ?m k' = Inr ())"
    by (simp add: Object_keys_def)
  have rs: "regions (testEnvironment (Some ?rs)) = Some ?rs"
    by (simp add: testEnvironment_def)
  have dup: "\<not> distinct (map cidrBlock ?rs)"
    by (simp add: usEast1_def)
  have 1: "newConfigurationManager (Some ''test'') (Some sameBlocks) = Inl OverlappingCidrBlocks"
    using identical_cidr_blocks_rejected
      [where cfg = sameBlocks and cur = "''test''" and pre = "[]" and k = "''test''"
         and e = "testEnvironment (Some ?rs)" and post = "[]" and rs = ?rs]
      ve vc envs pre rs dup
    by blast
  have acc: "newConfigurationManager (Some ''development'') (Some DEFAULT_DEPLOYMENT_CONFIG) =
     Inr defaultManager"
    by code_simp
  have look: "map_of (environments DEFAULT_DEPLOYMENT_CONFIG) ''production'' = Some productionEnvironment"
    by (simp add: DEFAULT_DEPLOYMENT_CONFIG_def)
  have prs: "regions productionEnvironment = Some [usEast1, euCentral1, apSoutheast2]"
    by (simp add: productionEnvironment_def)
  have 2: "distinct (map cidrBlock [usEast1, euCentral1, apSoutheast2])"
    using identical_cidr_blocks_rejected
      [where cfg = DEFAULT_DEPLOYMENT_CONFIG and cur = "''development''" and mgr = defaultManager
         and k = "''production''" and e = productionEnvironment
         and rs = "[usEast1, euCentral1, apSoutheast2]"]
      acc look prs
    by blast
  from 1 2 show ?thesis by blast
qed

text \<open>
  C3, as amended. In every declared environment, active or not, the check reads the first
  region whose name is the primary region's (\<^verbatim>\<open>regions.find\<close>). If that region has
  \<^verbatim>\<open>deployPayment\<close> false, the construction fails and returns no manager, with
  \<open>PrimaryRegionPaymentDisabled\<close> naming the region when it is the first check that fails. In
  an accepted bundle the first region of each environment with the primary region's name
  has \<^verbatim>\<open>deployPayment\<close> true, and so has every region with that name where the region names
  of the environment are pairwise distinct.
\<close>

theorem primary_region_payment:
  "(map_of (environments cfg) k = Some e \<and> regions e = Some rs \<and>
    find (\<lambda>r. regionName r = primaryRegion (crossRegionSettings cfg)) rs = Some r \<and>
    \<not> deployPayment r \<longrightarrow>
      (\<exists>err. newConfigurationManager (Some cur) (Some cfg) = Inl err)) \<and>
   (validateEnvironments \<lparr>deploymentConfig = cfg, currentEnvironment = cur\<rparr> = Inr () \<and>
    validateCrossRegionSettings \<lparr>deploymentConfig = cfg, currentEnvironment = cur\<rparr> = Inr () \<and>
    environments cfg = pre @ (k, e) # post \<and> k \<notin> set (Object_keys pre) \<and>
    (\<forall>k'\<in>set (Object_keys pre).
       validateEnvironmentConfiguration \<lparr>deploymentConfig = cfg, currentEnvironment = cur\<rparr> k' = Inr ()) \<and>
    regions e = Some rs \<and> validateCidrBlocks rs = Inr () \<and>
    (\<forall>r\<in>set rs. validateRegionConfiguration r = Inr ()) \<and>
    find (\<lambda>r. regionName r = primaryRegion (crossRegionSettings cfg)) rs = Some r \<and>
    \<not> deployPayment r \<longrightarrow>
      newConfigurationManager (Some cur) (Some cfg) =
        Inl (PrimaryRegionPaymentDisabled (primaryRegion (crossRegionSettings cfg)))) \<and>
   (newConfigurationManager (Some cur) (Some cfg) = Inr mgr \<and>
    map_of (environments cfg) k = Some e \<and> regions e = Some rs \<longrightarrow>
      (\<forall>r. find (\<lambda>r. regionName r = primaryRegion (crossRegionSettings cfg)) rs = Some r \<longrightarrow>
         deployPayment r) \<and>
      (distinct (map regionName rs) \<longrightarrow>
         (\<forall>r\<in>set rs. regionName r = primaryRegion (crossRegionSettings cfg) \<longrightarrow> deployPayment r)))"
proof (intro conjI impI allI ballI)
  let ?m = "\<lparr>deploymentConfig = cfg, currentEnvironment = cur\<rparr>"
  assume a: "map_of (environments cfg) k = Some e \<and> regions e = Some rs \<and>
    find (\<lambda>r. regionName r = primaryRegion (crossRegionSettings cfg)) rs = Some r \<and>
    \<not> deployPayment r"
  have "validateEnvironmentConfiguration ?m k \<noteq> Inr ()"
    unfolding validateEnvironmentConfiguration_ok_iff using a by auto
  with a show "\<exists>err. newConfigurationManager (Some cur) (Some cfg) = Inl err"
    by (blast intro: failing_environment_rejects)
next
  let ?m = "\<lparr>deploymentConfig = cfg, currentEnvironment = cur\<rparr>"
  assume a: "validateEnvironments ?m = Inr () \<and>
    validateCrossRegionSettings ?m = Inr () \<and>
    environments cfg = pre @ (k, e) # post \<and> k \<notin> set (Object_keys pre) \<and>
    (\<forall>k'\<in>set (Object_keys pre). validateEnvironmentConfiguration ?m k' = Inr ()) \<and>
    regions e = Some rs \<and> validateCidrBlocks rs = Inr () \<and>
    (\<forall>r\<in>set rs. validateRegionConfiguration r = Inr ()) \<and>
    find (\<lambda>r. regionName r = primaryRegion (crossRegionSettings cfg)) rs = Some r \<and>
    \<not> deployPayment r"
  then have ve: "validateEnvironments ?m = Inr ()"
    and vc: "validateCrossRegionSettings ?m = Inr ()"
    and envs: "environments cfg = pre @ (k, e) # post"
    and fresh: "k \<notin> set (Object_keys pre)"
    and before: "\<forall>k'\<in>set (Object_keys pre). validateEnvironmentConfiguration ?m k' = Inr ()"
    and rs: "regions e = Some rs"
    and cidrs: "validateCidrBlocks rs = Inr ()"
    and each: "\<forall>r\<in>set rs. validateRegionConfiguration r = Inr ()"
    and first: "find (\<lambda>r. regionName r = primaryRegion (crossRegionSettings cfg)) rs = Some r"
    and off: "\<not> deployPayment r"
    by blast+
  have dm: "deploymentConfig ?m = cfg"
    by simp
  have "map_of (pre @ (k, e) # post) k = Some e"
    using fresh by (rule lookup_after_prefix)
  then have look: "map_of (environments cfg) k = Some e"
    unfolding envs .
  have "validateEnvironmentConfiguration ?m k =
      Inl (PrimaryRegionPaymentDisabled (primaryRegion (crossRegionSettings cfg)))"
    using validateEnvironmentConfiguration_payment [of ?m k e rs r, unfolded dm]
      look rs cidrs each first off by blast
  then have "validateConfiguration ?m =
      Inl (PrimaryRegionPaymentDisabled (primaryRegion (crossRegionSettings cfg)))"
    using first_failing_environment [of ?m pre k e post, unfolded dm] ve vc envs before by blast
  then show "newConfigurationManager (Some cur) (Some cfg) =
        Inl (PrimaryRegionPaymentDisabled (primaryRegion (crossRegionSettings cfg)))"
    by (rule newConfigurationManager_rejected)
next
  fix r'
  assume a: "newConfigurationManager (Some cur) (Some cfg) = Inr mgr \<and>
    map_of (environments cfg) k = Some e \<and> regions e = Some rs"
    and f: "find (\<lambda>r. regionName r = primaryRegion (crossRegionSettings cfg)) rs = Some r'"
  from a have acc: "newConfigurationManager (Some cur) (Some cfg) = Inr mgr"
    and look: "map_of (environments cfg) k = Some e" and rs: "regions e = Some rs"
    by blast+
  obtain rs' where "regions e = Some rs'" "rs' \<noteq> []" "validateCidrBlocks rs' = Inr ()"
    "\<forall>r\<in>set rs'. validateRegionConfiguration r = Inr ()"
    "\<forall>r. find (\<lambda>r. regionName r = primaryRegion (crossRegionSettings cfg)) rs' = Some r
        \<longrightarrow> deployPayment r"
    by (rule accepted_regions [OF acc look])
  with rs f show "deployPayment r'" by simp
next
  fix r'
  assume a: "newConfigurationManager (Some cur) (Some cfg) = Inr mgr \<and>
    map_of (environments cfg) k = Some e \<and> regions e = Some rs"
    and d: "distinct (map regionName rs)"
    and r: "r' \<in> set rs" "regionName r' = primaryRegion (crossRegionSettings cfg)"
  from a have acc: "newConfigurationManager (Some cur) (Some cfg) = Inr mgr"
    and look: "map_of (environments cfg) k = Some e" and rs: "regions e = Some rs"
    by blast+
  obtain rs' where "regions e = Some rs'" "rs' \<noteq> []" "validateCidrBlocks rs' = Inr ()"
    "\<forall>r\<in>set rs'. validateRegionConfiguration r = Inr ()"
    "\<forall>r. find (\<lambda>r. regionName r = primaryRegion (crossRegionSettings cfg)) rs' = Some r
        \<longrightarrow> deployPayment r"
    by (rule accepted_regions [OF acc look])
  with rs have p: "\<forall>r. find (\<lambda>r. regionName r = primaryRegion (crossRegionSettings cfg)) rs = Some r
        \<longrightarrow> deployPayment r" by simp
  have "find (\<lambda>r. regionName r = primaryRegion (crossRegionSettings cfg)) rs = Some r'"
    using d r
  proof (induction rs)
    case Nil
    then show ?case by simp
  next
    case (Cons x xs)
    then show ?case by (auto simp: image_iff)
  qed
  with p show "deployPayment r'" by blast
qed

text \<open>
  The claim as first stated covers every region with the primary region's name. The bundle
  \<^const>\<open>duplicatePrimary\<close> is accepted although its second region is named \<^verbatim>\<open>us-east-1\<close> and
  has \<^verbatim>\<open>deployPayment\<close> false.
\<close>

theorem second_primary_region_without_payment:
  "regions (testEnvironment (Some [usEast1, usEast1\<lparr>cidrBlock := ''10.2.0.0/16'', deployPayment := False\<rparr>])) =
     Some [usEast1, usEast1\<lparr>cidrBlock := ''10.2.0.0/16'', deployPayment := False\<rparr>] \<and>
   regionName (usEast1\<lparr>cidrBlock := ''10.2.0.0/16'', deployPayment := False\<rparr>) =
     primaryRegion (crossRegionSettings duplicatePrimary) \<and>
   \<not> deployPayment (usEast1\<lparr>cidrBlock := ''10.2.0.0/16'', deployPayment := False\<rparr>) \<and>
   newConfigurationManager (Some ''test'') (Some duplicatePrimary) =
     Inr \<lparr>deploymentConfig = duplicatePrimary, currentEnvironment = ''test''\<rparr>"
  by code_simp

theorem primary_region_payment_examples:
  "newConfigurationManager (Some ''test'') (Some primaryWithoutPayment) =
     Inl (PrimaryRegionPaymentDisabled ''us-east-1'') \<and>
   newConfigurationManager (Some ''production'') None =
     Inr \<lparr>deploymentConfig = DEFAULT_DEPLOYMENT_CONFIG, currentEnvironment = ''production''\<rparr> \<and>
   deployPayment usEast1"
proof -
  let ?cfg = primaryWithoutPayment
  let ?m = "\<lparr>deploymentConfig = ?cfg, currentEnvironment = ''test''\<rparr>"
  let ?e = "testEnvironment (Some [usEast1\<lparr>deployPayment := False\<rparr>])"
  let ?r = "usEast1\<lparr>deployPayment := False\<rparr>"
  have p: "primaryRegion (crossRegionSettings ?cfg) = ''us-east-1''"
    by (simp add: primaryWithoutPayment_def testConfig_def)
  have ve: "validateEnvironments ?m = Inr ()"
    by code_simp
  have vc: "validateCrossRegionSettings ?m = Inr ()"
    by code_simp
  have envs: "environments ?cfg = [] @ (''test'', ?e) # []"
    by (simp add: primaryWithoutPayment_def testConfig_def)
  have pre: "''test'' \<notin> set (Object_keys ([] :: (string \<times> EnvironmentConfig) list)) \<and>
    (\<forall>k'\<in>set (Object_keys ([] :: (string \<times> EnvironmentConfig) list)).
       validateEnvironmentConfiguration ?m k' = Inr ())"
    by (simp add: Object_keys_def)
  have rs: "regions ?e = Some [?r]"
    by (simp add: testEnvironment_def)
  have cidrs: "validateCidrBlocks [?r] = Inr ()"
    by code_simp
  have "validateRegionConfiguration ?r = Inr ()"
    by code_simp
  then have each: "\<forall>r\<in>set [?r]. validateRegionConfiguration r = Inr ()"
    by simp
  have first: "find (\<lambda>r. regionName r = primaryRegion (crossRegionSettings ?cfg)) [?r] = Some ?r \<and>
    \<not> deployPayment ?r"
    by (simp add: p usEast1_def)
  note h = ve vc envs pre rs cidrs each first
  have 1: "newConfigurationManager (Some ''test'') (Some ?cfg) =
     Inl (PrimaryRegionPaymentDisabled ''us-east-1'')"
    using primary_region_payment
      [where cfg = ?cfg and k = "''test''" and e = ?e and rs = "[?r]" and r = ?r
         and cur = "''test''" and pre = "[]" and post = "[]"] h
    unfolding p by blast
  have acc: "newConfigurationManager (Some ''production'') (Some DEFAULT_DEPLOYMENT_CONFIG) =
     Inr \<lparr>deploymentConfig = DEFAULT_DEPLOYMENT_CONFIG, currentEnvironment = ''production''\<rparr>"
    by code_simp
  have look: "map_of (environments DEFAULT_DEPLOYMENT_CONFIG) ''production'' = Some productionEnvironment"
    by (simp add: DEFAULT_DEPLOYMENT_CONFIG_def)
  have prs: "regions productionEnvironment = Some [usEast1, euCentral1, apSoutheast2]"
    by (simp add: productionEnvironment_def)
  have dn: "distinct (map regionName [usEast1, euCentral1, apSoutheast2])"
    by (simp add: usEast1_def euCentral1_def apSoutheast2_def)
  have pn: "usEast1 \<in> set [usEast1, euCentral1, apSoutheast2] \<and>
    regionName usEast1 = primaryRegion (crossRegionSettings DEFAULT_DEPLOYMENT_CONFIG)"
    by (simp add: usEast1_def DEFAULT_DEPLOYMENT_CONFIG_def)
  have 2: "deployPayment usEast1"
    using primary_region_payment
      [where cfg = DEFAULT_DEPLOYMENT_CONFIG and k = "''production''"
         and e = productionEnvironment and rs = "[usEast1, euCentral1, apSoutheast2]"
         and cur = "''production''"
         and mgr = "\<lparr>deploymentConfig = DEFAULT_DEPLOYMENT_CONFIG,
                     currentEnvironment = ''production''\<rparr>"]
      acc look prs dn pn
    by blast
  have 3: "newConfigurationManager (Some ''production'') None =
     Inr \<lparr>deploymentConfig = DEFAULT_DEPLOYMENT_CONFIG, currentEnvironment = ''production''\<rparr>"
    using acc by (simp add: newConfigurationManager_defaults [of _ None])
  from 1 2 3 show ?thesis by simp
qed

text \<open>
  C4, as amended. In an accepted bundle every region name of every declared environment
  matches \<^verbatim>\<open>^[a-z]{2}-[a-z]+-\d+$\<close>: two lower-case letters, a hyphen, lower-case letters, a
  hyphen, digits. A bundle with a region name that does not match, in any declared
  environment, is rejected. Region names need not be unique within an environment.
\<close>

theorem region_names_match_pattern:
  "(newConfigurationManager (Some cur) (Some cfg) = Inr mgr \<and>
    map_of (environments cfg) k = Some e \<and> regions e = Some rs \<and> r \<in> set rs \<longrightarrow>
      test regionRegex (regionName r) \<and> regionNameText (regionName r)) \<and>
   (map_of (environments cfg) k = Some e \<and> regions e = Some rs \<and> r \<in> set rs \<and>
    \<not> test regionRegex (regionName r) \<longrightarrow>
      (\<exists>err. newConfigurationManager (Some cur) (Some cfg) = Inl err))"
proof (intro conjI impI)
  assume a: "newConfigurationManager (Some cur) (Some cfg) = Inr mgr \<and>
    map_of (environments cfg) k = Some e \<and> regions e = Some rs \<and> r \<in> set rs"
  then have acc: "newConfigurationManager (Some cur) (Some cfg) = Inr mgr"
    and look: "map_of (environments cfg) k = Some e" and rs: "regions e = Some rs"
    and r: "r \<in> set rs"
    by blast+
  obtain rs' where "regions e = Some rs'" "rs' \<noteq> []" "validateCidrBlocks rs' = Inr ()"
    "\<forall>r\<in>set rs'. validateRegionConfiguration r = Inr ()"
    "\<forall>r. find (\<lambda>r. regionName r = primaryRegion (crossRegionSettings cfg)) rs' = Some r
        \<longrightarrow> deployPayment r"
    by (rule accepted_regions [OF acc look])
  with rs r have "validateRegionConfiguration r = Inr ()" by simp
  then show t: "test regionRegex (regionName r)"
    by (rule validateRegionConfiguration_ok)
  then show "regionNameText (regionName r)"
    by (simp only: regionRegex_lang)
next
  let ?m = "\<lparr>deploymentConfig = cfg, currentEnvironment = cur\<rparr>"
  assume a: "map_of (environments cfg) k = Some e \<and> regions e = Some rs \<and> r \<in> set rs \<and>
    \<not> test regionRegex (regionName r)"
  then have look: "map_of (environments cfg) k = Some e" and rs: "regions e = Some rs"
    and r: "r \<in> set rs" and bad: "\<not> test regionRegex (regionName r)"
    by blast+
  have "validateRegionConfiguration r \<noteq> Inr ()"
    using bad validateRegionConfiguration_ok(1) [of r] by blast
  with r have "\<not> (\<forall>r\<in>set rs. validateRegionConfiguration r = Inr ())"
    by blast
  then have "validateEnvironmentConfiguration ?m k \<noteq> Inr ()"
    unfolding validateEnvironmentConfiguration_ok_iff using look rs by auto
  with look show "\<exists>err. newConfigurationManager (Some cur) (Some cfg) = Inl err"
    by (rule failing_environment_rejects)
qed

text \<open>
  The claim as first stated also has the region names of an environment unique. The bundle
  \<^const>\<open>duplicateNames\<close> is accepted with two different regions named \<^verbatim>\<open>us-east-1\<close>.
\<close>

theorem two_regions_with_one_name:
  "regions (testEnvironment (Some [usEast1, usEast1\<lparr>cidrBlock := ''10.2.0.0/16''\<rparr>])) =
     Some [usEast1, usEast1\<lparr>cidrBlock := ''10.2.0.0/16''\<rparr>] \<and>
   usEast1 \<noteq> usEast1\<lparr>cidrBlock := ''10.2.0.0/16''\<rparr> \<and>
   regionName usEast1 = regionName (usEast1\<lparr>cidrBlock := ''10.2.0.0/16''\<rparr>) \<and>
   newConfigurationManager (Some ''test'') (Some duplicateNames) =
     Inr \<lparr>deploymentConfig = duplicateNames, currentEnvironment = ''test''\<rparr>"
proof -
  have "newConfigurationManager (Some ''test'') (Some duplicateNames) =
     Inr \<lparr>deploymentConfig = duplicateNames, currentEnvironment = ''test''\<rparr>"
    by code_simp
  then show ?thesis
    by (simp add: testEnvironment_def usEast1_def)
qed

theorem region_names_match_pattern_examples:
  "regionNameText ''us-east-1'' \<and>
   (\<exists>err. newConfigurationManager (Some ''test'') (Some invalidRegionName) = Inl err) \<and>
   newConfigurationManager (Some ''test'') (Some invalidRegionName) =
     Inl (InvalidRegionNameFormat ''invalid-region'')"
proof -
  have "newConfigurationManager (Some ''development'') (Some DEFAULT_DEPLOYMENT_CONFIG) =
     Inr defaultManager"
    by code_simp
  moreover have "map_of (environments DEFAULT_DEPLOYMENT_CONFIG) ''development'' =
      Some developmentEnvironment \<and>
    regions developmentEnvironment = Some [usEast1] \<and> usEast1 \<in> set [usEast1]"
    by (simp add: DEFAULT_DEPLOYMENT_CONFIG_def developmentEnvironment_def)
  ultimately have acc: "newConfigurationManager (Some ''development'') (Some DEFAULT_DEPLOYMENT_CONFIG) =
     Inr defaultManager \<and>
    map_of (environments DEFAULT_DEPLOYMENT_CONFIG) ''development'' = Some developmentEnvironment \<and>
    regions developmentEnvironment = Some [usEast1] \<and> usEast1 \<in> set [usEast1]"
    by blast
  have "regionNameText (regionName usEast1)"
    using region_names_match_pattern
      [where cur = "''development''" and cfg = DEFAULT_DEPLOYMENT_CONFIG and mgr = defaultManager
         and k = "''development''" and e = developmentEnvironment and rs = "[usEast1]"
         and r = usEast1] acc
    by blast
  then have 1: "regionNameText ''us-east-1''"
    by (simp add: usEast1_def)
  let ?r = "usEast1\<lparr>regionName := ''invalid-region''\<rparr>"
  have "\<not> test regionRegex ''invalid-region''"
    by code_simp
  then have bad: "map_of (environments invalidRegionName) ''test'' = Some (testEnvironment (Some [?r])) \<and>
    regions (testEnvironment (Some [?r])) = Some [?r] \<and> ?r \<in> set [?r] \<and>
    \<not> test regionRegex (regionName ?r)"
    by (simp add: invalidRegionName_def testConfig_def testEnvironment_def)
  have 2: "\<exists>err. newConfigurationManager (Some ''test'') (Some invalidRegionName) = Inl err"
    using region_names_match_pattern
      [where cfg = invalidRegionName and k = "''test''" and e = "testEnvironment (Some [?r])"
         and rs = "[?r]" and r = ?r and cur = "''test''"] bad
    by blast
  have 3: "newConfigurationManager (Some ''test'') (Some invalidRegionName) =
     Inl (InvalidRegionNameFormat ''invalid-region'')"
    by code_simp
  from 1 2 3 show ?thesis by blast
qed

text \<open>
  C5. Resolution is to accept a region only if it has at least two availability zones, each
  of which starts with the region's name and matches \<^verbatim>\<open>^[a-z]{2}-[a-z]+-\d+[a-z]$\<close>. The
  code checks the number of zones and the prefix only. In the bundle \<^const>\<open>malformedZone\<close>
  the region \<^verbatim>\<open>us-east-1\<close> has the zones \<^verbatim>\<open>us-east-1a\<close> and \<^verbatim>\<open>us-east-1-zone-b\<close>: the second
  starts with the region's name, does not match the zone pattern and is refused by
  \<^const>\<open>validateAvailabilityZone\<close>, and yet the constructor returns the manager. The block of
  \<^verbatim>\<open>validateRegionConfiguration\<close> commented as validating the zone format tests
  \<^verbatim>\<open>startsWith\<close> alone.
\<close>

theorem malformed_zone_accepted:
  "\<not> validateAvailabilityZone ''us-east-1-zone-b'' ''us-east-1'' \<and>
   \<not> test availabilityZoneRegex ''us-east-1-zone-b'' \<and>
   startsWith ''us-east-1-zone-b'' ''us-east-1'' \<and>
   newConfigurationManager (Some ''test'') (Some malformedZone) =
     Inr \<lparr>deploymentConfig = malformedZone, currentEnvironment = ''test''\<rparr>"
proof -
  have "\<not> validateAvailabilityZone ''us-east-1-zone-b'' ''us-east-1''"
    by code_simp
  moreover have "\<not> test availabilityZoneRegex ''us-east-1-zone-b''"
    by code_simp
  moreover have "startsWith ''us-east-1-zone-b'' ''us-east-1''"
    by simp
  moreover have "newConfigurationManager (Some ''test'') (Some malformedZone) =
     Inr \<lparr>deploymentConfig = malformedZone, currentEnvironment = ''test''\<rparr>"
    by code_simp
  ultimately show ?thesis by blast
qed

text \<open>
  What the code does enforce of the zones: in an accepted bundle every region has at least
  two availability zones, each of which starts with the region's name, and a region of a
  declared environment with fewer than two zones, or with a zone that does not start with
  its name, makes the construction fail. \<^verbatim>\<open>validateRegionConfiguration\<close> refuses a region
  with a well-formed name and fewer than two zones with \<open>TooFewAvailabilityZones\<close>, and one
  with at least two zones, the first offending one being \<open>az\<close>, with
  \<open>AvailabilityZoneMismatch\<close>.
\<close>

lemma availability_zones_checked:
  "(newConfigurationManager (Some cur) (Some cfg) = Inr mgr \<and>
    map_of (environments cfg) k = Some e \<and> regions e = Some rs \<and> r \<in> set rs \<longrightarrow>
      2 \<le> length (availabilityZones r) \<and>
      (\<forall>az\<in>set (availabilityZones r). startsWith az (regionName r) \<and> (\<exists>t. az = regionName r @ t))) \<and>
   (map_of (environments cfg) k = Some e \<and> regions e = Some rs \<and> r \<in> set rs \<and>
    (length (availabilityZones r) < 2 \<or>
     (\<exists>az\<in>set (availabilityZones r). \<not> startsWith az (regionName r))) \<longrightarrow>
      (\<exists>err. newConfigurationManager (Some cur) (Some cfg) = Inl err)) \<and>
   (test regionRegex (regionName r) \<and> length (availabilityZones r) < 2 \<longrightarrow>
      validateRegionConfiguration r = Inl (TooFewAvailabilityZones (regionName r))) \<and>
   (test regionRegex (regionName r) \<and> 2 \<le> length (availabilityZones r) \<and>
    availabilityZones r = before @ az # rest \<and>
    (\<forall>a\<in>set before. startsWith a (regionName r)) \<and> \<not> startsWith az (regionName r) \<longrightarrow>
      validateRegionConfiguration r = Inl (AvailabilityZoneMismatch az (regionName r)))"
proof (intro conjI impI ballI)
  assume a: "newConfigurationManager (Some cur) (Some cfg) = Inr mgr \<and>
    map_of (environments cfg) k = Some e \<and> regions e = Some rs \<and> r \<in> set rs"
  then have acc: "newConfigurationManager (Some cur) (Some cfg) = Inr mgr"
    and look: "map_of (environments cfg) k = Some e" and rs: "regions e = Some rs"
    and r: "r \<in> set rs"
    by blast+
  obtain rs' where "regions e = Some rs'" "rs' \<noteq> []" "validateCidrBlocks rs' = Inr ()"
    "\<forall>r\<in>set rs'. validateRegionConfiguration r = Inr ()"
    "\<forall>r. find (\<lambda>r. regionName r = primaryRegion (crossRegionSettings cfg)) rs' = Some r
        \<longrightarrow> deployPayment r"
    by (rule accepted_regions [OF acc look])
  with rs r have ok: "validateRegionConfiguration r = Inr ()" by simp
  then show "2 \<le> length (availabilityZones r)"
    by (rule validateRegionConfiguration_ok)
  fix az
  assume "az \<in> set (availabilityZones r)"
  with validateRegionConfiguration_ok(3) [OF ok] show s: "startsWith az (regionName r)"
    by blast
  then show "\<exists>t. az = regionName r @ t"
    by (simp only: startsWith_iff)
next
  let ?m = "\<lparr>deploymentConfig = cfg, currentEnvironment = cur\<rparr>"
  assume a: "map_of (environments cfg) k = Some e \<and> regions e = Some rs \<and> r \<in> set rs \<and>
    (length (availabilityZones r) < 2 \<or>
     (\<exists>az\<in>set (availabilityZones r). \<not> startsWith az (regionName r)))"
  then have look: "map_of (environments cfg) k = Some e" and rs: "regions e = Some rs"
    and r: "r \<in> set rs"
    and bad: "length (availabilityZones r) < 2 \<or>
     (\<exists>az\<in>set (availabilityZones r). \<not> startsWith az (regionName r))"
    by blast+
  have "validateRegionConfiguration r \<noteq> Inr ()"
    using bad validateRegionConfiguration_ok(2,3) [of r] by fastforce
  with r have "\<not> (\<forall>r\<in>set rs. validateRegionConfiguration r = Inr ())"
    by blast
  then have "validateEnvironmentConfiguration ?m k \<noteq> Inr ()"
    unfolding validateEnvironmentConfiguration_ok_iff using look rs by auto
  with look show "\<exists>err. newConfigurationManager (Some cur) (Some cfg) = Inl err"
    by (rule failing_environment_rejects)
next
  assume "test regionRegex (regionName r) \<and> length (availabilityZones r) < 2"
  then show "validateRegionConfiguration r = Inl (TooFewAvailabilityZones (regionName r))"
    by (blast intro: validateRegionConfiguration_few_zones)
next
  assume "test regionRegex (regionName r) \<and> 2 \<le> length (availabilityZones r) \<and>
    availabilityZones r = before @ az # rest \<and>
    (\<forall>a\<in>set before. startsWith a (regionName r)) \<and> \<not> startsWith az (regionName r)"
  then show "validateRegionConfiguration r = Inl (AvailabilityZoneMismatch az (regionName r))"
    by (blast intro: validateRegionConfiguration_zone_mismatch)
qed

lemma availability_zones_checked_examples:
  "newConfigurationManager (Some ''test'') (Some oneZone) = Inl (TooFewAvailabilityZones ''us-east-1'') \<and>
   (\<exists>err. newConfigurationManager (Some ''test'') (Some oneZone) = Inl err) \<and>
   validateRegionConfiguration foreignZone = Inl (AvailabilityZoneMismatch ''us-west-1a'' ''us-east-1'') \<and>
   2 \<le> length (availabilityZones usEast1)"
proof -
  let ?r = "usEast1\<lparr>availabilityZones := [''us-east-1a'']\<rparr>"
  have 1: "newConfigurationManager (Some ''test'') (Some oneZone) = Inl (TooFewAvailabilityZones ''us-east-1'')"
    by code_simp
  have "map_of (environments oneZone) ''test'' = Some (testEnvironment (Some [?r])) \<and>
    regions (testEnvironment (Some [?r])) = Some [?r] \<and> ?r \<in> set [?r] \<and>
    length (availabilityZones ?r) < 2"
    by (simp add: oneZone_def testConfig_def testEnvironment_def)
  then have 2: "\<exists>err. newConfigurationManager (Some ''test'') (Some oneZone) = Inl err"
    using availability_zones_checked
      [where cfg = oneZone and k = "''test''" and e = "testEnvironment (Some [?r])"
         and rs = "[?r]" and r = ?r and cur = "''test''"]
    by blast
  have t: "test regionRegex (regionName foreignZone)"
    by code_simp
  have z: "2 \<le> length (availabilityZones foreignZone) \<and>
    availabilityZones foreignZone = [''us-east-1a''] @ ''us-west-1a'' # [] \<and>
    (\<forall>a\<in>set [''us-east-1a'']. startsWith a (regionName foreignZone)) \<and>
    \<not> startsWith ''us-west-1a'' (regionName foreignZone)"
    by (simp add: foreignZone_def usEast1_def)
  have "validateRegionConfiguration foreignZone =
      Inl (AvailabilityZoneMismatch ''us-west-1a'' (regionName foreignZone))"
    using availability_zones_checked
      [where r = foreignZone and before = "[''us-east-1a'']" and az = "''us-west-1a''" and rest = "[]"]
      t z
    by blast
  then have 3: "validateRegionConfiguration foreignZone =
      Inl (AvailabilityZoneMismatch ''us-west-1a'' ''us-east-1'')"
    by (simp add: foreignZone_def usEast1_def)
  have acc: "newConfigurationManager (Some ''development'') (Some DEFAULT_DEPLOYMENT_CONFIG) =
     Inr defaultManager"
    by code_simp
  have "map_of (environments DEFAULT_DEPLOYMENT_CONFIG) ''development'' = Some developmentEnvironment \<and>
    regions developmentEnvironment = Some [usEast1] \<and> usEast1 \<in> set [usEast1]"
    by (simp add: DEFAULT_DEPLOYMENT_CONFIG_def developmentEnvironment_def)
  with acc have 4: "2 \<le> length (availabilityZones usEast1)"
    using availability_zones_checked
      [where cur = "''development''" and cfg = DEFAULT_DEPLOYMENT_CONFIG and mgr = defaultManager
         and k = "''development''" and e = developmentEnvironment and rs = "[usEast1]"
         and r = usEast1]
    by blast
  from 1 2 3 4 show ?thesis by blast
qed

subsection \<open>CIDR predicates\<close>

text \<open>
  C6. On well-formed CIDR strings, that is texts \<open>a.b.c.d/p\<close> of one to three digits for each
  octet and one or two for the prefix length (the strings the format expression admits, by
  \<open>cidrRegex_lang\<close>), \<^const>\<open>cidrBlocksOverlap\<close> holds exactly when the two strings are equal or
  their first two octets are, read as text. So \<^verbatim>\<open>10.1.0.0/16\<close> overlaps \<^verbatim>\<open>10.1.5.0/24\<close>
  and does not overlap \<^verbatim>\<open>10.2.0.0/16\<close>.
\<close>

theorem cidrBlocksOverlap_first_two_octets:
  assumes "digits 1 3 a" "digits 1 3 b" "digits 1 3 c" "digits 1 3 d" "digits 1 2 p"
    and "digits 1 3 a'" "digits 1 3 b'" "digits 1 3 c'" "digits 1 3 d'" "digits 1 2 p'"
  shows "cidrBlocksOverlap (a @ ''.'' @ b @ ''.'' @ c @ ''.'' @ d @ ''/'' @ p)
           (a' @ ''.'' @ b' @ ''.'' @ c' @ ''.'' @ d' @ ''/'' @ p') \<longleftrightarrow>
         a @ ''.'' @ b @ ''.'' @ c @ ''.'' @ d @ ''/'' @ p =
           a' @ ''.'' @ b' @ ''.'' @ c' @ ''.'' @ d' @ ''/'' @ p' \<or>
         (a = a' \<and> b = b')"
  using assms by (rule cidrBlocksOverlap_text)

theorem cidrBlocksOverlap_examples:
  "cidrBlocksOverlap ''10.1.0.0/16'' ''10.1.5.0/24'' \<and>
   \<not> cidrBlocksOverlap ''10.1.0.0/16'' ''10.2.0.0/16''"
proof -
  have d: "digits 1 3 ''10''" "digits 1 3 ''1''" "digits 1 3 ''2''" "digits 1 3 ''0''"
    "digits 1 3 ''5''" "digits 1 2 ''16''" "digits 1 2 ''24''"
    by (simp_all add: digits_def isDigit_def)
  have "cidrBlocksOverlap ''10.1.0.0/16'' ''10.1.5.0/24''"
    using cidrBlocksOverlap_first_two_octets
      [OF d(1) d(2) d(4) d(4) d(6) d(1) d(2) d(5) d(4) d(7)]
    by simp
  moreover have "\<not> cidrBlocksOverlap ''10.1.0.0/16'' ''10.2.0.0/16''"
    using cidrBlocksOverlap_first_two_octets
      [OF d(1) d(2) d(4) d(4) d(6) d(1) d(3) d(4) d(4) d(6)]
    by simp
  ultimately show ?thesis by simp
qed

text \<open>
  C7. \<^const>\<open>validateCidrBlock\<close> returns a boolean on every string (the source has no
  operation that throws, and the model no failing branch), and it returns true exactly on
  the texts \<open>a.b.c.d/p\<close> of one to three digits for each octet and one or two for the prefix
  length, with every octet at most 255 and the prefix length between 8 and 28.
\<close>

theorem validateCidrBlock_iff:
  "validateCidrBlock cidr \<longleftrightarrow>
     (\<exists>a b c d p.
        cidr = a @ ''.'' @ b @ ''.'' @ c @ ''.'' @ d @ ''/'' @ p \<and>
        digits 1 3 a \<and> digits 1 3 b \<and> digits 1 3 c \<and> digits 1 3 d \<and> digits 1 2 p \<and>
        decimal a \<le> 255 \<and> decimal b \<le> 255 \<and> decimal c \<le> 255 \<and> decimal d \<le> 255 \<and>
        8 \<le> decimal p \<and> decimal p \<le> 28)"
proof
  assume v: "validateCidrBlock cidr"
  then have "test cidrRegex cidr"
    by (auto simp: validateCidrBlock_def split: if_splits)
  then obtain a b c d p where
    w: "cidr = a @ ''.'' @ b @ ''.'' @ c @ ''.'' @ d @ ''/'' @ p" and
    ds: "digits 1 3 a" "digits 1 3 b" "digits 1 3 c" "digits 1 3 d" "digits 1 2 p"
    unfolding test_lang cidrRegex_lang by blast
  from v have "8 \<le> decimal p \<and> decimal p \<le> 28 \<and>
      decimal a \<le> 255 \<and> decimal b \<le> 255 \<and> decimal c \<le> 255 \<and> decimal d \<le> 255"
    unfolding w validateCidrBlock_text [OF ds] .
  with w ds show "\<exists>a b c d p.
        cidr = a @ ''.'' @ b @ ''.'' @ c @ ''.'' @ d @ ''/'' @ p \<and>
        digits 1 3 a \<and> digits 1 3 b \<and> digits 1 3 c \<and> digits 1 3 d \<and> digits 1 2 p \<and>
        decimal a \<le> 255 \<and> decimal b \<le> 255 \<and> decimal c \<le> 255 \<and> decimal d \<le> 255 \<and>
        8 \<le> decimal p \<and> decimal p \<le> 28"
    by blast
next
  assume "\<exists>a b c d p.
        cidr = a @ ''.'' @ b @ ''.'' @ c @ ''.'' @ d @ ''/'' @ p \<and>
        digits 1 3 a \<and> digits 1 3 b \<and> digits 1 3 c \<and> digits 1 3 d \<and> digits 1 2 p \<and>
        decimal a \<le> 255 \<and> decimal b \<le> 255 \<and> decimal c \<le> 255 \<and> decimal d \<le> 255 \<and>
        8 \<le> decimal p \<and> decimal p \<le> 28"
  then obtain a b c d p where
    w: "cidr = a @ ''.'' @ b @ ''.'' @ c @ ''.'' @ d @ ''/'' @ p" and
    ds: "digits 1 3 a" "digits 1 3 b" "digits 1 3 c" "digits 1 3 d" "digits 1 2 p" and
    n: "8 \<le> decimal p \<and> decimal p \<le> 28 \<and>
      decimal a \<le> 255 \<and> decimal b \<le> 255 \<and> decimal c \<le> 255 \<and> decimal d \<le> 255"
    by blast
  show "validateCidrBlock cidr"
    unfolding w validateCidrBlock_text [OF ds] using n .
qed

theorem validateCidrBlock_examples:
  "validateCidrBlock ''10.1.0.0/16'' \<and>
   \<not> validateCidrBlock ''10.1.0.0/29'' \<and>
   \<not> validateCidrBlock ''256.1.0.0/16''"
proof -
  have "digits 1 3 ''10'' \<and> digits 1 3 ''1'' \<and> digits 1 3 ''0'' \<and> digits 1 2 ''16'' \<and>
      decimal ''10'' \<le> 255 \<and> decimal ''1'' \<le> 255 \<and> decimal ''0'' \<le> 255 \<and>
      8 \<le> decimal ''16'' \<and> decimal ''16'' \<le> 28"
    by (simp add: digits_def isDigit_def decimal_def digitValue_def)
  then have "\<exists>a b c d p.
        ''10.1.0.0/16'' = a @ ''.'' @ b @ ''.'' @ c @ ''.'' @ d @ ''/'' @ p \<and>
        digits 1 3 a \<and> digits 1 3 b \<and> digits 1 3 c \<and> digits 1 3 d \<and> digits 1 2 p \<and>
        decimal a \<le> 255 \<and> decimal b \<le> 255 \<and> decimal c \<le> 255 \<and> decimal d \<le> 255 \<and>
        8 \<le> decimal p \<and> decimal p \<le> 28"
    by (intro exI [of _ "''10''"] exI [of _ "''1''"] exI [of _ "''0''"] exI [of _ "''16''"]) simp
  then have "validateCidrBlock ''10.1.0.0/16''"
    by (simp only: validateCidrBlock_iff [of "''10.1.0.0/16''"])
  moreover have "\<not> validateCidrBlock ''10.1.0.0/29''"
    by code_simp
  moreover have "\<not> validateCidrBlock ''256.1.0.0/16''"
    by code_simp
  ultimately show ?thesis by simp
qed

subsection \<open>Transit gateway and security groups\<close>

text \<open>
  C8. For every manager, resolved or not, and every region name,
  \<^const>\<open>shouldEnableTransitGateway\<close> holds exactly when the bundle's \<^verbatim>\<open>enableTransitGateway\<close>
  flag is set and the name is the primary region: it is false for any other region
  whatever the flag, and false for the primary region when the flag is off.
\<close>

theorem shouldEnableTransitGateway_primary_only:
  "(shouldEnableTransitGateway this name \<longleftrightarrow>
      enableTransitGateway (crossRegionSettings (deploymentConfig this)) \<and>
      name = primaryRegion (crossRegionSettings (deploymentConfig this))) \<and>
   (name \<noteq> primaryRegion (crossRegionSettings (deploymentConfig this)) \<longrightarrow>
      \<not> shouldEnableTransitGateway this name) \<and>
   (\<not> enableTransitGateway (crossRegionSettings (deploymentConfig this)) \<longrightarrow>
      \<not> shouldEnableTransitGateway this (primaryRegion (crossRegionSettings (deploymentConfig this))))"
  by (simp add: shouldEnableTransitGateway_def getPrimaryRegion_def)

theorem shouldEnableTransitGateway_examples:
  "newConfigurationManager None None = Inr defaultManager \<and>
   shouldEnableTransitGateway defaultManager ''us-east-1'' \<and>
   \<not> shouldEnableTransitGateway defaultManager ''eu-central-1'' \<and>
   \<not> shouldEnableTransitGateway
       \<lparr>deploymentConfig = testConfig [(''test'', testEnvironment (Some [usEast1]))],
        currentEnvironment = ''test''\<rparr> ''us-east-1''"
proof -
  have "newConfigurationManager None None = Inr defaultManager"
    by code_simp
  moreover have "shouldEnableTransitGateway defaultManager ''us-east-1''"
    using shouldEnableTransitGateway_primary_only [of defaultManager "''us-east-1''"]
    by (simp add: defaultManager_def DEFAULT_DEPLOYMENT_CONFIG_def)
  moreover have "\<not> shouldEnableTransitGateway defaultManager ''eu-central-1''"
    using shouldEnableTransitGateway_primary_only [of defaultManager "''eu-central-1''"]
    by (simp add: defaultManager_def DEFAULT_DEPLOYMENT_CONFIG_def)
  moreover have "\<not> shouldEnableTransitGateway
       \<lparr>deploymentConfig = testConfig [(''test'', testEnvironment (Some [usEast1]))],
        currentEnvironment = ''test''\<rparr> ''us-east-1''"
    using shouldEnableTransitGateway_primary_only
      [of "\<lparr>deploymentConfig = testConfig [(''test'', testEnvironment (Some [usEast1]))],
            currentEnvironment = ''test''\<rparr>" "''us-east-1''"]
    by (simp add: testConfig_def)
  ultimately show ?thesis by simp
qed

text \<open>
  C9. Whatever the properties the network stack is built from, its database security group
  is constructed without the allow-all outbound rule and receives exactly three ingress
  rules, in this order: 3306/tcp from the application group, 6379/tcp from the application
  group, all traffic from itself. The web and application groups are constructed with
  allow-all outbound.
\<close>

theorem database_tier_security_group:
  "\<not> allowAllOutbound (databaseSecurityGroup (newNetworkStack props)) \<and>
   map (\<lambda>rule. (rulePeer rule, rulePort rule))
     (ingress (databaseSecurityGroup (newNetworkStack props))) =
     [(GroupPeer AppSecurityGroup, Tcp 3306), (GroupPeer AppSecurityGroup, Tcp 6379),
      (GroupPeer DatabaseSecurityGroup, AllTraffic)] \<and>
   allowAllOutbound (webSecurityGroup (newNetworkStack props)) \<and>
   allowAllOutbound (appSecurityGroup (newNetworkStack props))"
  by (simp add: newNetworkStack_def configureSecurityGroupRules_def newSecurityGroup_def
      addIngressRule_def Let_def)

theorem database_tier_security_group_example:
  "\<not> allowAllOutbound (databaseSecurityGroup
       (newNetworkStack (networkStackProps defaultManager ''development''
          (defaultTags ''Development'') usEast1))) \<and>
   transitGateway (newNetworkStack (networkStackProps defaultManager ''development''
      (defaultTags ''Development'') usEast1))"
  using database_tier_security_group
    [of "networkStackProps defaultManager ''development'' (defaultTags ''Development'') usEast1"]
  by (simp add: newNetworkStack_def networkStackProps_def shouldEnableTransitGateway_def
      getPrimaryRegion_def defaultManager_def DEFAULT_DEPLOYMENT_CONFIG_def usEast1_def
      configureSecurityGroupRules_def Let_def)

subsection \<open>Environments without regions\<close>

text \<open>
  C10, as amended. A declared environment whose \<^verbatim>\<open>regions\<close> is absent or empty makes the
  construction fail; the error is \<open>NoRegionsConfigured\<close> naming that environment when it is
  the first check that fails. Every declared environment of an accepted bundle has at least
  one region.
\<close>

theorem every_environment_has_regions:
  "(map_of (environments cfg) k = Some e \<and> (regions e = None \<or> regions e = Some []) \<longrightarrow>
      (\<exists>err. newConfigurationManager (Some cur) (Some cfg) = Inl err)) \<and>
   (validateEnvironments \<lparr>deploymentConfig = cfg, currentEnvironment = cur\<rparr> = Inr () \<and>
    validateCrossRegionSettings \<lparr>deploymentConfig = cfg, currentEnvironment = cur\<rparr> = Inr () \<and>
    environments cfg = pre @ (k, e) # post \<and> k \<notin> set (Object_keys pre) \<and>
    (\<forall>k'\<in>set (Object_keys pre).
       validateEnvironmentConfiguration \<lparr>deploymentConfig = cfg, currentEnvironment = cur\<rparr> k' = Inr ()) \<and>
    (regions e = None \<or> regions e = Some []) \<longrightarrow>
      newConfigurationManager (Some cur) (Some cfg) = Inl (NoRegionsConfigured k)) \<and>
   (newConfigurationManager (Some cur) (Some cfg) = Inr mgr \<and>
    map_of (environments cfg) k = Some e \<longrightarrow>
      (\<exists>rs. regions e = Some rs \<and> rs \<noteq> []))"
proof (intro conjI impI)
  let ?m = "\<lparr>deploymentConfig = cfg, currentEnvironment = cur\<rparr>"
  assume a: "map_of (environments cfg) k = Some e \<and> (regions e = None \<or> regions e = Some [])"
  then have look: "map_of (environments cfg) k = Some e"
    and none: "regions e = None \<or> regions e = Some []"
    by blast+
  have "validateEnvironmentConfiguration ?m k = Inl (NoRegionsConfigured k)"
    using validateEnvironmentConfiguration_no_regions [of ?m k e] look none by simp
  then have "validateEnvironmentConfiguration ?m k \<noteq> Inr ()"
    by simp
  with look show "\<exists>err. newConfigurationManager (Some cur) (Some cfg) = Inl err"
    by (rule failing_environment_rejects)
next
  let ?m = "\<lparr>deploymentConfig = cfg, currentEnvironment = cur\<rparr>"
  assume a: "validateEnvironments ?m = Inr () \<and>
    validateCrossRegionSettings ?m = Inr () \<and>
    environments cfg = pre @ (k, e) # post \<and> k \<notin> set (Object_keys pre) \<and>
    (\<forall>k'\<in>set (Object_keys pre). validateEnvironmentConfiguration ?m k' = Inr ()) \<and>
    (regions e = None \<or> regions e = Some [])"
  then have ve: "validateEnvironments ?m = Inr ()"
    and vc: "validateCrossRegionSettings ?m = Inr ()"
    and envs: "environments cfg = pre @ (k, e) # post"
    and fresh: "k \<notin> set (Object_keys pre)"
    and before: "\<forall>k'\<in>set (Object_keys pre). validateEnvironmentConfiguration ?m k' = Inr ()"
    and none: "regions e = None \<or> regions e = Some []"
    by blast+
  have dm: "deploymentConfig ?m = cfg"
    by simp
  have "map_of (pre @ (k, e) # post) k = Some e"
    using fresh by (rule lookup_after_prefix)
  then have look: "map_of (environments cfg) k = Some e"
    unfolding envs .
  have "validateEnvironmentConfiguration ?m k = Inl (NoRegionsConfigured k)"
    using validateEnvironmentConfiguration_no_regions [of ?m k e, unfolded dm] look none by blast
  then have "validateConfiguration ?m = Inl (NoRegionsConfigured k)"
    using first_failing_environment [of ?m pre k e post, unfolded dm] ve vc envs before by blast
  then show "newConfigurationManager (Some cur) (Some cfg) = Inl (NoRegionsConfigured k)"
    by (rule newConfigurationManager_rejected)
next
  assume a: "newConfigurationManager (Some cur) (Some cfg) = Inr mgr \<and>
    map_of (environments cfg) k = Some e"
  then have acc: "newConfigurationManager (Some cur) (Some cfg) = Inr mgr"
    and look: "map_of (environments cfg) k = Some e"
    by blast+
  obtain rs where "regions e = Some rs" "rs \<noteq> []" "validateCidrBlocks rs = Inr ()"
    "\<forall>r\<in>set rs. validateRegionConfiguration r = Inr ()"
    "\<forall>r. find (\<lambda>r. regionName r = primaryRegion (crossRegionSettings cfg)) rs = Some r
        \<longrightarrow> deployPayment r"
    by (rule accepted_regions [OF acc look])
  then show "\<exists>rs. regions e = Some rs \<and> rs \<noteq> []"
    by blast
qed

text \<open>
  The claim as first stated has the error name the environment in every case. For
  \<^const>\<open>emptyRegions\<close>, whose only environment has no region, the check of the primary region
  fails first and the error names the primary region.
\<close>

theorem empty_regions_other_error:
  "map_of (environments emptyRegions) ''test'' = Some (testEnvironment (Some [])) \<and>
   regions (testEnvironment (Some [])) = Some [] \<and>
   newConfigurationManager (Some ''test'') (Some emptyRegions) =
     Inl (PrimaryRegionNotFound ''us-east-1'') \<and>
   newConfigurationManager (Some ''test'') (Some emptyRegions) \<noteq> Inl (NoRegionsConfigured ''test'')"
proof -
  have "newConfigurationManager (Some ''test'') (Some emptyRegions) =
     Inl (PrimaryRegionNotFound ''us-east-1'')"
    by code_simp
  then show ?thesis
    by (simp add: emptyRegions_def testConfig_def testEnvironment_def)
qed

theorem every_environment_has_regions_examples:
  "newConfigurationManager (Some ''test'') (Some secondEnvironmentEmpty) =
     Inl (NoRegionsConfigured ''empty'') \<and>
   newConfigurationManager (Some ''test'') (Some secondEnvironmentMissing) =
     Inl (NoRegionsConfigured ''missing'') \<and>
   (\<exists>rs. regions productionEnvironment = Some rs \<and> rs \<noteq> [])"
proof -
  let ?t = "(''test'', testEnvironment (Some [usEast1]))"
  have 1: "newConfigurationManager (Some ''test'') (Some secondEnvironmentEmpty) =
     Inl (NoRegionsConfigured ''empty'')"
  proof -
    let ?m = "\<lparr>deploymentConfig = secondEnvironmentEmpty, currentEnvironment = ''test''\<rparr>"
    have ve: "validateEnvironments ?m = Inr ()" by code_simp
    have vc: "validateCrossRegionSettings ?m = Inr ()" by code_simp
    have envs: "environments secondEnvironmentEmpty = [?t] @ (''empty'', testEnvironment (Some [])) # []"
      by (simp add: secondEnvironmentEmpty_def testConfig_def)
    have "validateEnvironmentConfiguration ?m ''test'' = Inr ()" by code_simp
    then have before: "''empty'' \<notin> set (Object_keys [?t]) \<and>
      (\<forall>k'\<in>set (Object_keys [?t]). validateEnvironmentConfiguration ?m k' = Inr ())"
      by (simp add: Object_keys_def)
    have none: "regions (testEnvironment (Some [])) = None \<or> regions (testEnvironment (Some [])) = Some []"
      by (simp add: testEnvironment_def)
    show ?thesis
      using every_environment_has_regions
        [where cfg = secondEnvironmentEmpty and cur = "''test''" and pre = "[?t]"
           and k = "''empty''" and e = "testEnvironment (Some [])" and post = "[]"]
        ve vc envs before none
      by blast
  qed
  have 2: "newConfigurationManager (Some ''test'') (Some secondEnvironmentMissing) =
     Inl (NoRegionsConfigured ''missing'')"
  proof -
    let ?m = "\<lparr>deploymentConfig = secondEnvironmentMissing, currentEnvironment = ''test''\<rparr>"
    have ve: "validateEnvironments ?m = Inr ()" by code_simp
    have vc: "validateCrossRegionSettings ?m = Inr ()" by code_simp
    have envs: "environments secondEnvironmentMissing = [?t] @ (''missing'', testEnvironment None) # []"
      by (simp add: secondEnvironmentMissing_def testConfig_def)
    have "validateEnvironmentConfiguration ?m ''test'' = Inr ()" by code_simp
    then have before: "''missing'' \<notin> set (Object_keys [?t]) \<and>
      (\<forall>k'\<in>set (Object_keys [?t]). validateEnvironmentConfiguration ?m k' = Inr ())"
      by (simp add: Object_keys_def)
    have none: "regions (testEnvironment None) = None \<or> regions (testEnvironment None) = Some []"
      by (simp add: testEnvironment_def)
    show ?thesis
      using every_environment_has_regions
        [where cfg = secondEnvironmentMissing and cur = "''test''" and pre = "[?t]"
           and k = "''missing''" and e = "testEnvironment None" and post = "[]"]
        ve vc envs before none
      by blast
  qed
  have acc: "newConfigurationManager (Some ''development'') (Some DEFAULT_DEPLOYMENT_CONFIG) =
     Inr defaultManager"
    by code_simp
  have look: "map_of (environments DEFAULT_DEPLOYMENT_CONFIG) ''production'' = Some productionEnvironment"
    by (simp add: DEFAULT_DEPLOYMENT_CONFIG_def)
  have 3: "\<exists>rs. regions productionEnvironment = Some rs \<and> rs \<noteq> []"
    using every_environment_has_regions
      [where cfg = DEFAULT_DEPLOYMENT_CONFIG and cur = "''development''" and mgr = defaultManager
         and k = "''production''" and e = productionEnvironment]
      acc look
    by blast
  from 1 2 3 show ?thesis by blast
qed

end
